theory Spec2Isabelle
  imports Complex_Main
begin

section \<open>An exercise tracker: users, exercises and logs over a document store\<close>

text \<open>
  The repository holds an Express application in two variants.  Both register the
  same four routes over one Mongoose model \<open>User\<close>:
  \<^item> \<open>POST /api/users\<close> creates a user;
  \<^item> \<open>GET /api/users\<close> lists the users;
  \<^item> \<open>POST /api/users/:_id/exercises\<close> appends an exercise to a user's log;
  \<^item> \<open>GET /api/users/:_id/logs\<close> returns a user's log, filtered and truncated.

  The first variant (lines 1 to 220 of the source) trims and checks its inputs; the
  second variant (lines 221 to 390) is the same program with fewer checks.  The
  handlers that create a user, add an exercise and return a log are embedded, each as
  a function from the request fields and the store to the response and the store
  afterwards.  The handlers of the second variant carry the suffix \<open>2\<close>.

  Request fields (body fields and query parameters) are strings or absent, which is
  what a form-encoded body and a query string with single-valued keys deliver:
  a field is a \<open>string option\<close>.  Characters are code units below 256.

  The JavaScript built-ins the handlers call are written out from the language
  standard (\<open>trim\<close>, \<open>parseInt\<close>, \<open>Number\<close>, \<open>Array.prototype.slice\<close>,
  \<open>Date.prototype.toDateString\<close>, the date-only form of \<open>Date.parse\<close>).  What the
  standard leaves to the engine or what belongs to a library is a field of the record
  \<open>runtime\<close>: a statement about an arbitrary runtime holds for every engine, and the
  examples run on a sample runtime.
\<close>

subsection \<open>Strings\<close>

text \<open>White space and line terminators of the standard, among the code units below 256.\<close>

definition isWhiteSpace :: "char \<Rightarrow> bool" where
  "isWhiteSpace c =
     (c \<in> set [CHR 0x09, CHR 0x0A, CHR 0x0B, CHR 0x0C, CHR 0x0D, CHR 0x20, CHR 0xA0])"

definition trimStart :: "string \<Rightarrow> string" where
  "trimStart s = dropWhile isWhiteSpace s"

definition trim :: "string \<Rightarrow> string" where
  "trim s = rev (dropWhile isWhiteSpace (rev (dropWhile isWhiteSpace s)))"

text \<open>\<open>!v\<close> for a request field: an absent field and the empty string are falsy.\<close>

definition falsy :: "string option \<Rightarrow> bool" where
  "falsy v = (case v of None \<Rightarrow> True | Some s \<Rightarrow> s = [])"

text \<open>The string of a field that is present.\<close>

definition string_of :: "string option \<Rightarrow> string" where
  "string_of v = (case v of None \<Rightarrow> [] | Some s \<Rightarrow> s)"

subsection \<open>Numbers\<close>

text \<open>
  A JavaScript number is \<open>NaN\<close>, an infinity, or a finite double, kept as the rational
  it denotes.  The two zeros are not told apart.
\<close>

datatype jsnum = NaN | PInf | NInf | Fin rat

definition isNaN :: "jsnum \<Rightarrow> bool" where
  "isNaN x = (case x of NaN \<Rightarrow> True | _ \<Rightarrow> False)"

definition is_integer :: "jsnum \<Rightarrow> bool" where
  "is_integer x = (case x of Fin q \<Rightarrow> q = of_int \<lfloor>q\<rfloor> | _ \<Rightarrow> False)"

definition negate :: "jsnum \<Rightarrow> jsnum" where
  "negate x = (case x of NaN \<Rightarrow> NaN | PInf \<Rightarrow> NInf | NInf \<Rightarrow> PInf | Fin q \<Rightarrow> Fin (- q))"

definition pow2 :: "int \<Rightarrow> rat" where
  "pow2 e = (if 0 \<le> e then 2 ^ nat e else 1 / 2 ^ nat (- e))"

definition pow10 :: "int \<Rightarrow> rat" where
  "pow10 e = (if 0 \<le> e then 10 ^ nat e else 1 / 10 ^ nat (- e))"

fun bit_length :: "nat \<Rightarrow> nat" where
  "bit_length n = (if n = 0 then 0 else Suc (bit_length (n div 2)))"

declare bit_length.simps [simp del]

text \<open>The exponent of a positive rational: the largest \<open>e\<close> with \<open>2 ^ e \<le> q\<close>.\<close>

definition ilog2 :: "rat \<Rightarrow> int" where
  "ilog2 q =
     (let (a, b) = quotient_of q;
          e = int (bit_length (nat a)) - int (bit_length (nat b))
      in if pow2 e \<le> q then e else e - 1)"

definition round_half_even :: "rat \<Rightarrow> int" where
  "round_half_even q =
     (let f = \<lfloor>q\<rfloor>; r = q - of_int f
      in if r < 1 / 2 then f
         else if 1 / 2 < r then f + 1
         else if even f then f else f + 1)"

text \<open>
  The number value of a real: the nearest double, ties to even, with 53 bits of
  precision, exponents from \<open>-1074\<close> and overflow to an infinity.
\<close>

definition to_double :: "rat \<Rightarrow> jsnum" where
  "to_double q =
     (if q = 0 then Fin 0
      else
        let a = \<bar>q\<bar>;
            e = ilog2 a;
            p = max (e - 52) (- 1074);
            m = round_half_even (a / pow2 p)
        in if 1024 \<le> e \<or> (e = 1023 \<and> m = 2 ^ 53)
           then (if 0 < q then PInf else NInf)
           else Fin (sgn q * of_int m * pow2 p))"

text \<open>Digits: the value of a character as a digit of a radix up to 36.\<close>

definition digit_of :: "char \<Rightarrow> nat option" where
  "digit_of c =
     (let n = (of_char c :: nat)
      in if 48 \<le> n \<and> n \<le> 57 then Some (n - 48)
         else if 97 \<le> n \<and> n \<le> 122 then Some (n - 87)
         else if 65 \<le> n \<and> n \<le> 90 then Some (n - 55)
         else None)"

definition is_digit :: "nat \<Rightarrow> char \<Rightarrow> bool" where
  "is_digit R c = (case digit_of c of None \<Rightarrow> False | Some d \<Rightarrow> d < R)"

definition digit_val :: "char \<Rightarrow> nat" where
  "digit_val c = (case digit_of c of None \<Rightarrow> 0 | Some d \<Rightarrow> d)"

definition digits_value :: "nat \<Rightarrow> string \<Rightarrow> nat" where
  "digits_value R ds = foldl (\<lambda>acc c. acc * R + digit_val c) 0 ds"

text \<open>
  \<open>parseInt(string)\<close> with no radix: leading white space is skipped, a sign is read,
  a prefix \<open>0x\<close> selects radix 16, and the longest prefix of digits is the value;
  no digit at all gives \<open>NaN\<close>.
\<close>

definition parseInt :: "string \<Rightarrow> jsnum" where
  "parseInt inputString =
     (let S = trimStart inputString;
          sign = (case S of c # _ \<Rightarrow> if c = CHR ''-'' then - 1 else 1 | [] \<Rightarrow> (1 :: int));
          S1 = (case S of c # r \<Rightarrow> if c = CHR ''+'' \<or> c = CHR ''-'' then r else S | [] \<Rightarrow> S);
          hex = (case S1 of c # x # _ \<Rightarrow> c = CHR ''0'' \<and> (x = CHR ''x'' \<or> x = CHR ''X'') | _ \<Rightarrow> False);
          R = (if hex then 16 else 10);
          S2 = (if hex then drop 2 S1 else S1);
          Z = takeWhile (is_digit R) S2
      in if Z = [] then NaN
         else to_double (of_int (sign * int (digits_value R Z))))"

text \<open>
  \<open>Number(string)\<close>: the whole trimmed string must be a numeric literal (a signed
  decimal literal with an optional fraction and exponent, \<open>Infinity\<close>, or an unsigned
  binary, octal or hexadecimal integer); the empty string is zero; anything else is
  \<open>NaN\<close>.
\<close>

definition SignedInteger :: "string \<Rightarrow> int option" where
  "SignedInteger s =
     (let neg = (case s of c # _ \<Rightarrow> c = CHR ''-'' | [] \<Rightarrow> False);
          ds = (case s of c # r \<Rightarrow> if c = CHR ''+'' \<or> c = CHR ''-'' then r else s | [] \<Rightarrow> s)
      in if ds \<noteq> [] \<and> list_all (is_digit 10) ds
         then Some ((if neg then - 1 else 1) * int (digits_value 10 ds))
         else None)"

definition ExponentPart_opt :: "string \<Rightarrow> int option" where
  "ExponentPart_opt s =
     (case s of
        [] \<Rightarrow> Some 0
      | c # r \<Rightarrow> if c = CHR ''e'' \<or> c = CHR ''E'' then SignedInteger r else None)"

definition StrUnsignedDecimalLiteral :: "string \<Rightarrow> jsnum" where
  "StrUnsignedDecimalLiteral s =
     (if s = ''Infinity'' then PInf
      else
        let ip = takeWhile (is_digit 10) s;
            r1 = dropWhile (is_digit 10) s;
            fp = (case r1 of c # t \<Rightarrow> if c = CHR ''.'' then takeWhile (is_digit 10) t else [] | [] \<Rightarrow> []);
            r2 = (case r1 of c # t \<Rightarrow> if c = CHR ''.'' then dropWhile (is_digit 10) t else r1 | [] \<Rightarrow> [])
        in if ip = [] \<and> fp = [] then NaN
           else (case ExponentPart_opt r2 of
                   None \<Rightarrow> NaN
                 | Some ex \<Rightarrow>
                     to_double (of_nat (digits_value 10 (ip @ fp)) * pow10 (ex - int (length fp)))))"

definition NonDecimalIntegerLiteral :: "nat \<Rightarrow> string \<Rightarrow> jsnum" where
  "NonDecimalIntegerLiteral R ds =
     (if ds \<noteq> [] \<and> list_all (is_digit R) ds then to_double (of_nat (digits_value R ds)) else NaN)"

definition StringToNumber :: "string \<Rightarrow> jsnum" where
  "StringToNumber str =
     (let s = trim str
      in case s of
           [] \<Rightarrow> Fin 0
         | c # r \<Rightarrow>
             if c = CHR ''+'' then StrUnsignedDecimalLiteral r
             else if c = CHR ''-'' then negate (StrUnsignedDecimalLiteral r)
             else (case r of
                     x # ds \<Rightarrow>
                       if c = CHR ''0'' \<and> (x = CHR ''x'' \<or> x = CHR ''X'') then NonDecimalIntegerLiteral 16 ds
                       else if c = CHR ''0'' \<and> (x = CHR ''o'' \<or> x = CHR ''O'') then NonDecimalIntegerLiteral 8 ds
                       else if c = CHR ''0'' \<and> (x = CHR ''b'' \<or> x = CHR ''B'') then NonDecimalIntegerLiteral 2 ds
                       else StrUnsignedDecimalLiteral s
                   | [] \<Rightarrow> StrUnsignedDecimalLiteral s))"

text \<open>
  \<open>xs.slice(0, n)\<close>: \<open>n\<close> is truncated to an integer, \<open>NaN\<close> counts as zero, and a
  negative \<open>n\<close> counts from the end.
\<close>

definition truncate_rat :: "rat \<Rightarrow> int" where
  "truncate_rat q = (if 0 \<le> q then \<lfloor>q\<rfloor> else \<lceil>q\<rceil>)"

definition slice0 :: "'a list \<Rightarrow> jsnum \<Rightarrow> 'a list" where
  "slice0 xs n =
     (case n of
        NaN \<Rightarrow> []
      | PInf \<Rightarrow> xs
      | NInf \<Rightarrow> []
      | Fin q \<Rightarrow>
          (let k = truncate_rat q
           in if k < 0 then take (nat (int (length xs) + k)) xs else take (nat k) xs))"

subsection \<open>Dates\<close>

text \<open>
  A date is its time value, the milliseconds since the epoch in UTC; \<open>None\<close> is the
  invalid date, whose time value is \<open>NaN\<close>.  The day arithmetic is the standard's.
\<close>

definition msPerDay :: int where
  "msPerDay = 86400000"

definition Day :: "int \<Rightarrow> int" where
  "Day t = t div msPerDay"

definition DayFromYear :: "int \<Rightarrow> int" where
  "DayFromYear y =
     365 * (y - 1970) + (y - 1969) div 4 - (y - 1901) div 100 + (y - 1601) div 400"

definition InLeapYear :: "int \<Rightarrow> int" where
  "InLeapYear y =
     (if y mod 4 \<noteq> 0 then 0 else if y mod 100 \<noteq> 0 then 1 else if y mod 400 \<noteq> 0 then 0 else 1)"

text \<open>
  The year of a day: the largest \<open>y\<close> with \<open>DayFromYear y\<close> at most the day, found
  from an estimate that is off by at most one.
\<close>

definition YearFromDay :: "int \<Rightarrow> int" where
  "YearFromDay d =
     (let y = 1970 + (d * 400) div 146097
      in if DayFromYear (y + 1) \<le> d then y + 1
         else if DayFromYear y \<le> d then y
         else y - 1)"

definition MonthFromDay :: "int \<Rightarrow> int \<Rightarrow> int" where
  "MonthFromDay L dwy =
     (if dwy < 31 then 0
      else if dwy < 59 + L then 1
      else if dwy < 90 + L then 2
      else if dwy < 120 + L then 3
      else if dwy < 151 + L then 4
      else if dwy < 181 + L then 5
      else if dwy < 212 + L then 6
      else if dwy < 243 + L then 7
      else if dwy < 273 + L then 8
      else if dwy < 304 + L then 9
      else if dwy < 334 + L then 10
      else 11)"

text \<open>The first day of a month (0 to 11) within its year.\<close>

definition MonthStart :: "int \<Rightarrow> int \<Rightarrow> int" where
  "MonthStart L m =
     (if m = 0 then 0
      else if m = 1 then 31
      else if m = 2 then 59 + L
      else if m = 3 then 90 + L
      else if m = 4 then 120 + L
      else if m = 5 then 151 + L
      else if m = 6 then 181 + L
      else if m = 7 then 212 + L
      else if m = 8 then 243 + L
      else if m = 9 then 273 + L
      else if m = 10 then 304 + L
      else if m = 11 then 334 + L
      else 365 + L)"

definition YearFromTime :: "int \<Rightarrow> int" where
  "YearFromTime t = YearFromDay (Day t)"

definition DayWithinYear :: "int \<Rightarrow> int" where
  "DayWithinYear t = Day t - DayFromYear (YearFromTime t)"

definition MonthFromTime :: "int \<Rightarrow> int" where
  "MonthFromTime t = MonthFromDay (InLeapYear (YearFromTime t)) (DayWithinYear t)"

definition DateFromTime :: "int \<Rightarrow> int" where
  "DateFromTime t =
     DayWithinYear t - MonthStart (InLeapYear (YearFromTime t)) (MonthFromTime t) + 1"

definition WeekDay :: "int \<Rightarrow> int" where
  "WeekDay t = (Day t + 4) mod 7"

fun decimal :: "nat \<Rightarrow> string" where
  "decimal n = (if n < 10 then [char_of (48 + n)] else decimal (n div 10) @ [char_of (48 + n mod 10)])"

declare decimal.simps [simp del]

definition ToZeroPaddedDecimalString :: "nat \<Rightarrow> nat \<Rightarrow> string" where
  "ToZeroPaddedDecimalString n minLength =
     (let S = decimal n in replicate (minLength - length S) (CHR ''0'') @ S)"

definition weekday_name :: "int \<Rightarrow> string" where
  "weekday_name w = [''Sun'', ''Mon'', ''Tue'', ''Wed'', ''Thu'', ''Fri'', ''Sat''] ! nat w"

definition month_name :: "int \<Rightarrow> string" where
  "month_name m =
     [''Jan'', ''Feb'', ''Mar'', ''Apr'', ''May'', ''Jun'',
      ''Jul'', ''Aug'', ''Sep'', ''Oct'', ''Nov'', ''Dec''] ! nat m"

text \<open>The date string of a local time: weekday, month, day of two digits, year of four.\<close>

definition DateString :: "int \<Rightarrow> string" where
  "DateString t =
     weekday_name (WeekDay t) @ '' '' @ month_name (MonthFromTime t) @ '' ''
       @ ToZeroPaddedDecimalString (nat (DateFromTime t)) 2 @ '' ''
       @ (if 0 \<le> YearFromTime t then [] else ''-'')
       @ ToZeroPaddedDecimalString (nat \<bar>YearFromTime t\<bar>) 4"

text \<open>
  The date-only form \<open>YYYY-MM-DD\<close> of the standard's date format, for a day that
  exists in its month: the time value of that day's midnight in UTC.
\<close>

definition date_only :: "string \<Rightarrow> int option" where
  "date_only s =
     (if length s = 10 \<and> s ! 4 = CHR ''-'' \<and> s ! 7 = CHR ''-''
         \<and> list_all (is_digit 10) (take 4 s)
         \<and> list_all (is_digit 10) (take 2 (drop 5 s))
         \<and> list_all (is_digit 10) (drop 8 s)
      then
        let y = int (digits_value 10 (take 4 s));
            m = int (digits_value 10 (take 2 (drop 5 s)));
            d = int (digits_value 10 (drop 8 s));
            L = InLeapYear y
        in if 1 \<le> m \<and> m \<le> 12 \<and> 1 \<le> d \<and> d \<le> MonthStart L m - MonthStart L (m - 1)
           then Some ((DayFromYear y + MonthStart L (m - 1) + d - 1) * msPerDay)
           else None
      else None)"

definition TimeClip :: "int option \<Rightarrow> int option" where
  "TimeClip tv =
     (case tv of None \<Rightarrow> None | Some t \<Rightarrow> if \<bar>t\<bar> \<le> 8640000000000000 then Some t else None)"

subsection \<open>The runtime\<close>

text \<open>
  What the handlers take from their environment:
  \<^item> \<open>objectIdIsValid\<close> is \<open>mongoose.Types.ObjectId.isValid\<close> on a path parameter;
  \<^item> \<open>castObjectId\<close> is the string form of the identifier a valid path parameter is
    cast to;
  \<^item> \<open>newObjectId\<close> is the identifier generated for a new document;
  \<^item> \<open>currentTime\<close> is the time value of \<open>new Date()\<close>;
  \<^item> \<open>localTZA\<close> is the offset of local time from UTC, in milliseconds, at a time value;
  \<^item> \<open>dateParseOther\<close> is what \<open>Date.parse\<close> returns on a string that is not of the
    date-only form above;
  \<^item> \<open>numberToStringOther\<close> is the string of a finite number that is not an integer
    below \<open>2 ^ 53\<close> in magnitude.
\<close>

record runtime =
  objectIdIsValid :: "string \<Rightarrow> bool"
  castObjectId :: "string \<Rightarrow> string"
  newObjectId :: string
  currentTime :: int
  localTZA :: "int \<Rightarrow> int"
  dateParseOther :: "string \<Rightarrow> int option"
  numberToStringOther :: "rat \<Rightarrow> string"

text \<open>\<open>new Date(string)\<close>: the empty string is no date in any engine.\<close>

definition Date_parse :: "runtime \<Rightarrow> string \<Rightarrow> int option" where
  "Date_parse rt s =
     (if s = [] then None
      else (case date_only s of
              Some t \<Rightarrow> Some t
            | None \<Rightarrow> TimeClip (dateParseOther rt s)))"

definition toDateString :: "runtime \<Rightarrow> int option \<Rightarrow> string" where
  "toDateString rt tv =
     (case tv of
        None \<Rightarrow> ''Invalid Date''
      | Some t \<Rightarrow> DateString (t + localTZA rt t))"

definition Number_toString :: "runtime \<Rightarrow> jsnum \<Rightarrow> string" where
  "Number_toString rt x =
     (case x of
        NaN \<Rightarrow> ''NaN''
      | PInf \<Rightarrow> ''Infinity''
      | NInf \<Rightarrow> ''-Infinity''
      | Fin q \<Rightarrow>
          if q = of_int \<lfloor>q\<rfloor> \<and> \<bar>q\<bar> < 2 ^ 53
          then (if q < 0 then ''-'' else []) @ decimal (nat \<bar>\<lfloor>q\<rfloor>\<bar>)
          else numberToStringOther rt q)"

subsection \<open>Documents and the store\<close>

text \<open>
  The schema of the source: a user has a \<open>username\<close> and a \<open>log\<close> of exercises, each
  with a \<open>description\<close>, a \<open>duration\<close> (a number) and a \<open>date\<close>.  The field \<open>user_id\<close>
  is the string form of \<open>_id\<close>.
\<close>

record exercise =
  description :: string
  duration :: jsnum
  date :: "int option"

record user =
  user_id :: string
  username :: string
  log' :: "exercise list"

text \<open>
  The store is the collection behind the model: whether the connection is up, the
  documents in insertion order, and the journal of the calls the handlers have issued.
\<close>

datatype store_call = FindById string | Save string

record store =
  connected :: bool
  users :: "user list"
  journal :: "store_call list"

definition mutating :: "store_call \<Rightarrow> bool" where
  "mutating c = (case c of FindById _ \<Rightarrow> False | Save _ \<Rightarrow> True)"

text \<open>What a store call throws; the handlers catch it and answer 500.\<close>

datatype exn = ValidationError | StoreUnavailable | DuplicateKey | DocumentNotFound

text \<open>
  Mongoose validates a document against the schema before it writes: every path is
  required, a \<open>Number\<close> path refuses \<open>NaN\<close> and a \<open>Date\<close> path refuses the invalid date.
\<close>

definition valid_exercise :: "exercise \<Rightarrow> bool" where
  "valid_exercise e = (description e \<noteq> [] \<and> duration e \<noteq> NaN \<and> date e \<noteq> None)"

definition valid_user :: "user \<Rightarrow> bool" where
  "valid_user u = (username u \<noteq> [] \<and> list_all valid_exercise (log' u))"

definition lookup :: "store \<Rightarrow> string \<Rightarrow> user option" where
  "lookup s i = find (\<lambda>u. user_id u = i) (users s)"

text \<open>\<open>User.findById(userId)\<close>.\<close>

definition findById :: "runtime \<Rightarrow> store \<Rightarrow> string \<Rightarrow> (exn + user option) \<times> store" where
  "findById rt s userId =
     (let s' = s\<lparr>journal := journal s @ [FindById userId]\<rparr>
      in if connected s then (Inr (lookup s (castObjectId rt userId)), s')
         else (Inl StoreUnavailable, s'))"

text \<open>\<open>user.save()\<close> on a new document: an insert.\<close>

definition save_new :: "store \<Rightarrow> user \<Rightarrow> (exn + user) \<times> store" where
  "save_new s u =
     (let s' = s\<lparr>journal := journal s @ [Save (user_id u)]\<rparr>
      in if valid_user u then
           (if connected s then
              (case lookup s (user_id u) of
                 None \<Rightarrow> (Inr u, s'\<lparr>users := users s @ [u]\<rparr>)
               | Some _ \<Rightarrow> (Inl DuplicateKey, s'))
            else (Inl StoreUnavailable, s'))
         else (Inl ValidationError, s'))"

text \<open>\<open>user.save()\<close> on a document that was found: an update of that document.\<close>

definition save :: "store \<Rightarrow> user \<Rightarrow> (exn + user) \<times> store" where
  "save s u =
     (let s' = s\<lparr>journal := journal s @ [Save (user_id u)]\<rparr>
      in if valid_user u then
           (if connected s then
              (case lookup s (user_id u) of
                 None \<Rightarrow> (Inl DocumentNotFound, s')
               | Some _ \<Rightarrow>
                   (Inr u, s'\<lparr>users := map (\<lambda>v. if user_id v = user_id u then u else v) (users s)\<rparr>))
            else (Inl StoreUnavailable, s'))
         else (Inl ValidationError, s'))"

subsection \<open>Responses\<close>

text \<open>
  The bodies the handlers send: \<open>{error}\<close> with a fixed message, \<open>{error: err.message}\<close>
  for a caught exception, \<open>{username, _id}\<close>,
  \<open>{_id, username, description, duration, date}\<close> and \<open>{_id, username, count, log}\<close>
  with entries \<open>{description, duration, date}\<close>.
\<close>

datatype log_entry = LogEntry string jsnum string

datatype body =
    ErrorJson string
  | CaughtJson exn
  | UserJson string string
  | ExerciseJson string string string jsnum string
  | LogsJson string string nat "log_entry list"

record response =
  status :: nat
  body :: body

definition respond :: "nat \<Rightarrow> body \<Rightarrow> response" where
  "respond code b = \<lparr>status = code, body = b\<rparr>"

subsection \<open>The handlers of the first variant\<close>

text \<open>\<open>POST /api/users\<close> (source lines 55 to 78).\<close>

definition create_user :: "runtime \<Rightarrow> store \<Rightarrow> string option \<Rightarrow> response \<times> store" where
  "create_user rt s username_field =
     (if falsy username_field \<or> trim (string_of username_field) = []
      then (respond 400 (ErrorJson ''Username is required''), s)
      else
        (case save_new s
                \<lparr>user_id = newObjectId rt, username = trim (string_of username_field), log' = []\<rparr> of
           (Inl err, s') \<Rightarrow> (respond 500 (CaughtJson err), s')
         | (Inr savedUser, s') \<Rightarrow>
             (respond 200 (UserJson (username savedUser) (user_id savedUser)), s')))"

text \<open>
  The date of a new exercise (source line 125):
  \<open>date && date.trim() !== '' ? new Date(date) : new Date()\<close>.
\<close>

definition exerciseDate :: "runtime \<Rightarrow> string option \<Rightarrow> int option" where
  "exerciseDate rt date_field =
     (if falsy date_field then Some (currentTime rt)
      else if trim (string_of date_field) = [] then Some (currentTime rt)
      else Date_parse rt (string_of date_field))"

text \<open>\<open>POST /api/users/:_id/exercises\<close> (source lines 102 to 154).\<close>

definition add_exercise ::
  "runtime \<Rightarrow> store \<Rightarrow> string \<Rightarrow> string option \<Rightarrow> string option \<Rightarrow> string option \<Rightarrow> response \<times> store"
where
  "add_exercise rt s userId description_field duration_field date_field =
     (if falsy description_field \<or> falsy duration_field
      then (respond 400 (ErrorJson ''Description and duration are required''), s)
      else if objectIdIsValid rt userId then
        (case findById rt s userId of
           (Inl err, s1) \<Rightarrow> (respond 500 (CaughtJson err), s1)
         | (Inr None, s1) \<Rightarrow> (respond 404 (ErrorJson ''User not found''), s1)
         | (Inr (Some user), s1) \<Rightarrow>
             (case exerciseDate rt date_field of
                None \<Rightarrow> (respond 400 (ErrorJson ''Invalid date format''), s1)
              | Some t \<Rightarrow>
                  let ex = \<lparr>description = string_of description_field,
                            duration = parseInt (string_of duration_field),
                            date = Some t\<rparr>
                  in (case save s1 (user\<lparr>log' := log' user @ [ex]\<rparr>) of
                        (Inl err, s2) \<Rightarrow> (respond 500 (CaughtJson err), s2)
                      | (Inr _, s2) \<Rightarrow>
                          (respond 200
                             (ExerciseJson (user_id user) (username user) (description ex)
                                (duration ex) (toDateString rt (Some t))),
                           s2))))
      else (respond 400 (ErrorJson ''Invalid user ID format''), s))"

text \<open>
  The steps of \<open>GET /api/users/:_id/logs\<close> on the log of the user that was found
  (source lines 175 to 202).  A comparison with an invalid date is false.
\<close>

definition date_ge :: "int option \<Rightarrow> int \<Rightarrow> bool" where
  "date_ge d bound = (case d of None \<Rightarrow> False | Some t \<Rightarrow> bound \<le> t)"

definition date_le :: "int option \<Rightarrow> int \<Rightarrow> bool" where
  "date_le d bound = (case d of None \<Rightarrow> False | Some t \<Rightarrow> t \<le> bound)"

definition filter_from :: "runtime \<Rightarrow> string option \<Rightarrow> exercise list \<Rightarrow> exercise list" where
  "filter_from rt from logs =
     (if falsy from then logs
      else (case Date_parse rt (string_of from) of
              None \<Rightarrow> logs
            | Some fromDate \<Rightarrow> filter (\<lambda>e. date_ge (date e) fromDate) logs))"

definition filter_to :: "runtime \<Rightarrow> string option \<Rightarrow> exercise list \<Rightarrow> exercise list" where
  "filter_to rt to logs =
     (if falsy to then logs
      else (case Date_parse rt (string_of to) of
              None \<Rightarrow> logs
            | Some toDate \<Rightarrow> filter (\<lambda>e. date_le (date e) toDate) logs))"

definition apply_limit :: "string option \<Rightarrow> 'a list \<Rightarrow> 'a list" where
  "apply_limit limit logs =
     (if falsy limit then logs
      else if isNaN (parseInt (string_of limit)) then logs
      else slice0 logs (parseInt (string_of limit)))"

definition format_entry :: "runtime \<Rightarrow> exercise \<Rightarrow> log_entry" where
  "format_entry rt e =
     LogEntry (description e) (parseInt (Number_toString rt (duration e))) (toDateString rt (date e))"

text \<open>\<open>GET /api/users/:_id/logs\<close> (source lines 157 to 216).\<close>

definition get_logs ::
  "runtime \<Rightarrow> store \<Rightarrow> string \<Rightarrow> string option \<Rightarrow> string option \<Rightarrow> string option \<Rightarrow> response \<times> store"
where
  "get_logs rt s userId from to limit =
     (if objectIdIsValid rt userId then
        (case findById rt s userId of
           (Inl err, s1) \<Rightarrow> (respond 500 (CaughtJson err), s1)
         | (Inr None, s1) \<Rightarrow> (respond 404 (ErrorJson ''User not found''), s1)
         | (Inr (Some user), s1) \<Rightarrow>
             let logs = apply_limit limit (filter_to rt to (filter_from rt from (log' user)));
                 formattedLogs = map (format_entry rt) logs
             in (respond 200
                   (LogsJson (user_id user) (username user) (length formattedLogs) formattedLogs),
                 s1))
      else (respond 400 (ErrorJson ''Invalid user ID format''), s))"

subsection \<open>The handlers of the second variant\<close>

text \<open>\<open>POST /api/users\<close> (source lines 259 to 278).\<close>

definition create_user2 :: "runtime \<Rightarrow> store \<Rightarrow> string option \<Rightarrow> response \<times> store" where
  "create_user2 rt s username_field =
     (if falsy username_field
      then (respond 400 (ErrorJson ''Username is required''), s)
      else
        (case save_new s
                \<lparr>user_id = newObjectId rt, username = string_of username_field, log' = []\<rparr> of
           (Inl err, s') \<Rightarrow> (respond 500 (CaughtJson err), s')
         | (Inr user, s') \<Rightarrow>
             (respond 201 (UserJson (username user) (user_id user)), s')))"

text \<open>The date of a new exercise (source line 312): \<open>date ? new Date(date) : new Date()\<close>.\<close>

definition exerciseDate2 :: "runtime \<Rightarrow> string option \<Rightarrow> int option" where
  "exerciseDate2 rt date_field =
     (if falsy date_field then Some (currentTime rt)
      else Date_parse rt (string_of date_field))"

text \<open>\<open>POST /api/users/:_id/exercises\<close> (source lines 292 to 333).\<close>

definition add_exercise2 ::
  "runtime \<Rightarrow> store \<Rightarrow> string \<Rightarrow> string option \<Rightarrow> string option \<Rightarrow> string option \<Rightarrow> response \<times> store"
where
  "add_exercise2 rt s userId description_field duration_field date_field =
     (if falsy description_field \<or> falsy duration_field
      then (respond 400 (ErrorJson ''Description and duration are required''), s)
      else if objectIdIsValid rt userId then
        (case findById rt s userId of
           (Inl err, s1) \<Rightarrow> (respond 500 (CaughtJson err), s1)
         | (Inr None, s1) \<Rightarrow> (respond 404 (ErrorJson ''User not found''), s1)
         | (Inr (Some user), s1) \<Rightarrow>
             let ex = \<lparr>description = string_of description_field,
                       duration = StringToNumber (string_of duration_field),
                       date = exerciseDate2 rt date_field\<rparr>
             in (case save s1 (user\<lparr>log' := log' user @ [ex]\<rparr>) of
                   (Inl err, s2) \<Rightarrow> (respond 500 (CaughtJson err), s2)
                 | (Inr _, s2) \<Rightarrow>
                     (respond 201
                        (ExerciseJson (user_id user) (username user)
                           (string_of description_field)
                           (StringToNumber (string_of duration_field))
                           (toDateString rt (date ex))),
                      s2)))
      else (respond 400 (ErrorJson ''Invalid user ID format''), s))"

text \<open>
  The steps of \<open>GET /api/users/:_id/logs\<close> (source lines 351 to 374): the parsed date
  and number are used as they come.
\<close>

definition filter_from2 :: "runtime \<Rightarrow> string option \<Rightarrow> exercise list \<Rightarrow> exercise list" where
  "filter_from2 rt from logs =
     (if falsy from then logs
      else (case Date_parse rt (string_of from) of
              None \<Rightarrow> filter (\<lambda>e. False) logs
            | Some fromDate \<Rightarrow> filter (\<lambda>e. date_ge (date e) fromDate) logs))"

definition filter_to2 :: "runtime \<Rightarrow> string option \<Rightarrow> exercise list \<Rightarrow> exercise list" where
  "filter_to2 rt to logs =
     (if falsy to then logs
      else (case Date_parse rt (string_of to) of
              None \<Rightarrow> filter (\<lambda>e. False) logs
            | Some toDate \<Rightarrow> filter (\<lambda>e. date_le (date e) toDate) logs))"

definition apply_limit2 :: "string option \<Rightarrow> 'a list \<Rightarrow> 'a list" where
  "apply_limit2 limit logs =
     (if falsy limit then logs else slice0 logs (StringToNumber (string_of limit)))"

definition format_entry2 :: "runtime \<Rightarrow> exercise \<Rightarrow> log_entry" where
  "format_entry2 rt e = LogEntry (description e) (duration e) (toDateString rt (date e))"

text \<open>\<open>GET /api/users/:_id/logs\<close> (source lines 336 to 386).\<close>

definition get_logs2 ::
  "runtime \<Rightarrow> store \<Rightarrow> string \<Rightarrow> string option \<Rightarrow> string option \<Rightarrow> string option \<Rightarrow> response \<times> store"
where
  "get_logs2 rt s userId from to limit =
     (if objectIdIsValid rt userId then
        (case findById rt s userId of
           (Inl err, s1) \<Rightarrow> (respond 500 (CaughtJson err), s1)
         | (Inr None, s1) \<Rightarrow> (respond 404 (ErrorJson ''User not found''), s1)
         | (Inr (Some user), s1) \<Rightarrow>
             let logs = apply_limit2 limit (filter_to2 rt to (filter_from2 rt from (log' user)));
                 formattedLogs = map (format_entry2 rt) logs
             in (respond 200
                   (LogsJson (user_id user) (username user) (length formattedLogs) formattedLogs),
                 s1))
      else (respond 400 (ErrorJson ''Invalid user ID format''), s))"

subsection \<open>A sample runtime and a sample store\<close>

text \<open>
  The examples below run the handlers on a host at UTC whose identifiers are 24
  hexadecimal digits.  On the strings of the examples that are not of the date-only
  form every engine answers with the invalid date; the examples never ask for the
  string of a number that is not a small integer.
\<close>

definition sample_runtime :: runtime where
  "sample_runtime =
     \<lparr>objectIdIsValid = (\<lambda>i. length i = 24 \<and> list_all (is_digit 16) i),
      castObjectId = (\<lambda>i. i),
      newObjectId = ''64b000000000000000000002'',
      currentTime = 1700000000000,
      localTZA = (\<lambda>t. 0),
      dateParseOther = (\<lambda>s. None),
      numberToStringOther = (\<lambda>q. [])\<rparr>"

definition alice :: user where
  "alice =
     \<lparr>user_id = ''64b000000000000000000001'', username = ''alice'',
      log' = [\<lparr>description = ''run'', duration = Fin 30, date = Some 1673740800000\<rparr>,
              \<lparr>description = ''swim'', duration = Fin 45, date = Some 1676851200000\<rparr>,
              \<lparr>description = ''walk'', duration = Fin 20, date = Some 1677974400000\<rparr>]\<rparr>"

definition bob :: user where
  "bob = \<lparr>user_id = ''64b000000000000000000003'', username = ''bob'', log' = []\<rparr>"

definition sample_store :: store where
  "sample_store = \<lparr>connected = True, users = [alice, bob], journal = []\<rparr>"

text \<open>The same host five hours behind UTC.\<close>

definition west_runtime :: runtime where
  "west_runtime = sample_runtime\<lparr>localTZA := (\<lambda>t. - 18000000)\<rparr>"

section \<open>Properties\<close>

subsection \<open>Reading the log\<close>

text \<open>
  Claim C10.  The handler of \<open>GET /api/users/:_id/logs\<close> only reads, in both variants:
  the documents of the store and the state of its connection are the same after the
  request as before, and the only call the handler adds to the journal is the
  \<open>findById\<close> of the requested user (none when the identifier is malformed), so no
  mutating call is issued.
\<close>

theorem get_logs_read_only:
  "users (snd (get_logs rt s userId from to limit)) = users s
   \<and> connected (snd (get_logs rt s userId from to limit)) = connected s
   \<and> journal (snd (get_logs rt s userId from to limit))
       = journal s @ (if objectIdIsValid rt userId then [FindById userId] else [])
   \<and> filter mutating (journal (snd (get_logs rt s userId from to limit)))
       = filter mutating (journal s)
   \<and> users (snd (get_logs2 rt s userId from to limit)) = users s
   \<and> connected (snd (get_logs2 rt s userId from to limit)) = connected s
   \<and> journal (snd (get_logs2 rt s userId from to limit))
       = journal s @ (if objectIdIsValid rt userId then [FindById userId] else [])
   \<and> filter mutating (journal (snd (get_logs2 rt s userId from to limit)))
       = filter mutating (journal s)"
  by (simp add: get_logs_def get_logs2_def findById_def Let_def mutating_def
           split: option.splits sum.splits prod.splits)

lemma Date_parse_nonempty: "Date_parse rt f = Some a \<Longrightarrow> f \<noteq> []"
  by (auto simp: Date_parse_def)

lemma parseInt_empty: "parseInt [] = NaN"
  by (simp add: parseInt_def trimStart_def)

lemma truncate_of_int: "truncate_rat (of_int k) = k"
  by (simp add: truncate_rat_def)

lemma slice0_nonneg: "0 \<le> k \<Longrightarrow> slice0 xs (Fin (of_int k)) = take (nat k) xs"
  by (simp add: slice0_def truncate_of_int Let_def)

text \<open>
  Claim C4.  On a request for the log of a user that exists, with \<open>from\<close> and \<open>to\<close>
  that both parse as dates \<open>a\<close> and \<open>b\<close>, the two date filters keep exactly the entries
  of the stored log whose date \<open>d\<close> satisfies \<open>a \<le> d\<close> and \<open>d \<le> b\<close>, in stored order.
  Without a limit the returned log is these entries, each rendered, and \<open>count\<close> is
  their number; with a limit the returned log is what the limit keeps of them.
\<close>

theorem get_logs_date_range:
  "objectIdIsValid rt userId \<and> connected s \<and> lookup s (castObjectId rt userId) = Some u
     \<and> Date_parse rt f = Some a \<and> Date_parse rt t = Some b
   \<longrightarrow>
     filter_to rt (Some t) (filter_from rt (Some f) (log' u))
       = filter (\<lambda>e. case date e of None \<Rightarrow> False | Some d \<Rightarrow> a \<le> d \<and> d \<le> b) (log' u)
     \<and> fst (get_logs rt s userId (Some f) (Some t) None)
       = respond 200
           (LogsJson (user_id u) (username u)
              (length (filter (\<lambda>e. case date e of None \<Rightarrow> False | Some d \<Rightarrow> a \<le> d \<and> d \<le> b) (log' u)))
              (map (format_entry rt)
                 (filter (\<lambda>e. case date e of None \<Rightarrow> False | Some d \<Rightarrow> a \<le> d \<and> d \<le> b) (log' u))))
     \<and> fst (get_logs rt s userId (Some f) (Some t) limit)
       = respond 200
           (LogsJson (user_id u) (username u)
              (length (apply_limit limit
                 (filter (\<lambda>e. case date e of None \<Rightarrow> False | Some d \<Rightarrow> a \<le> d \<and> d \<le> b) (log' u))))
              (map (format_entry rt)
                 (apply_limit limit
                    (filter (\<lambda>e. case date e of None \<Rightarrow> False | Some d \<Rightarrow> a \<le> d \<and> d \<le> b) (log' u)))))"
proof (intro impI)
  assume h: "objectIdIsValid rt userId \<and> connected s \<and> lookup s (castObjectId rt userId) = Some u
     \<and> Date_parse rt f = Some a \<and> Date_parse rt t = Some b"
  let ?P = "\<lambda>e. case date e of None \<Rightarrow> False | Some d \<Rightarrow> a \<le> d \<and> d \<le> b"
  from h have ne: "f \<noteq> []" "t \<noteq> []" by (auto dest: Date_parse_nonempty)
  have eq: "(\<lambda>e. date_ge (date e) a \<and> date_le (date e) b) = ?P"
    by (auto simp: date_ge_def date_le_def fun_eq_iff split: option.splits)
  have filt: "filter_to rt (Some t) (filter_from rt (Some f) (log' u)) = filter ?P (log' u)"
    using h ne by (simp add: filter_to_def filter_from_def falsy_def string_of_def eq)
  have nolimit: "apply_limit None xs = xs" for xs :: "exercise list"
    by (simp add: apply_limit_def falsy_def)
  have resp: "fst (get_logs rt s userId (Some f) (Some t) l)
       = respond 200 (LogsJson (user_id u) (username u)
              (length (apply_limit l (filter ?P (log' u))))
              (map (format_entry rt) (apply_limit l (filter ?P (log' u)))))" for l
    using h by (simp add: get_logs_def findById_def Let_def filt)
  show "filter_to rt (Some t) (filter_from rt (Some f) (log' u)) = filter ?P (log' u)
     \<and> fst (get_logs rt s userId (Some f) (Some t) None)
       = respond 200 (LogsJson (user_id u) (username u) (length (filter ?P (log' u)))
              (map (format_entry rt) (filter ?P (log' u))))
     \<and> fst (get_logs rt s userId (Some f) (Some t) limit)
       = respond 200 (LogsJson (user_id u) (username u)
              (length (apply_limit limit (filter ?P (log' u))))
              (map (format_entry rt) (apply_limit limit (filter ?P (log' u)))))"
    using filt resp [of None] resp [of limit] by (simp add: nolimit)
qed

theorem get_logs_date_range_witness:
  "Date_parse sample_runtime ''2023-02-01'' = Some 1675209600000
   \<and> Date_parse sample_runtime ''2023-03-31'' = Some 1680220800000
   \<and> fst (get_logs sample_runtime sample_store ''64b000000000000000000001''
             (Some ''2023-02-01'') (Some ''2023-03-31'') None)
       = respond 200
           (LogsJson ''64b000000000000000000001'' ''alice'' 2
              [LogEntry ''swim'' (Fin 45) ''Mon Feb 20 2023'',
               LogEntry ''walk'' (Fin 20) ''Sun Mar 05 2023''])"
proof -
  let ?P = "\<lambda>e. case date e of None \<Rightarrow> False
                | Some d \<Rightarrow> (1675209600000 :: int) \<le> d \<and> d \<le> 1680220800000"
  have a: "objectIdIsValid sample_runtime ''64b000000000000000000001''"
    by code_simp
  have b: "connected sample_store"
    by (simp add: sample_store_def)
  have c: "lookup sample_store (castObjectId sample_runtime ''64b000000000000000000001'') = Some alice"
    by code_simp
  have d: "Date_parse sample_runtime ''2023-02-01'' = Some 1675209600000"
    by code_simp
  have e: "Date_parse sample_runtime ''2023-03-31'' = Some 1680220800000"
    by code_simp
  have "fst (get_logs sample_runtime sample_store ''64b000000000000000000001''
             (Some ''2023-02-01'') (Some ''2023-03-31'') None)
       = respond 200
           (LogsJson (user_id alice) (username alice)
              (length (filter ?P (log' alice)))
              (map (format_entry sample_runtime) (filter ?P (log' alice))))"
    using a b c d e
      get_logs_date_range [of sample_runtime "''64b000000000000000000001''" sample_store alice
        "''2023-02-01''" 1675209600000 "''2023-03-31''" 1680220800000 None]
    by blast
  also have "\<dots> = respond 200
           (LogsJson ''64b000000000000000000001'' ''alice'' 2
              [LogEntry ''swim'' (Fin 45) ''Mon Feb 20 2023'',
               LogEntry ''walk'' (Fin 20) ''Sun Mar 05 2023''])"
    by code_simp
  finally show ?thesis
    using d e by simp
qed

text \<open>The second variant filters by two dates that parse in the same way.\<close>

lemma get_logs2_date_range:
  assumes "objectIdIsValid rt userId" and "connected s"
    and "lookup s (castObjectId rt userId) = Some u"
    and "Date_parse rt f = Some a" and "Date_parse rt t = Some b"
  shows "fst (get_logs2 rt s userId (Some f) (Some t) limit)
       = respond 200
           (LogsJson (user_id u) (username u)
              (length (apply_limit2 limit
                 (filter (\<lambda>e. case date e of None \<Rightarrow> False | Some d \<Rightarrow> a \<le> d \<and> d \<le> b) (log' u))))
              (map (format_entry2 rt)
                 (apply_limit2 limit
                    (filter (\<lambda>e. case date e of None \<Rightarrow> False | Some d \<Rightarrow> a \<le> d \<and> d \<le> b) (log' u)))))"
proof -
  let ?P = "\<lambda>e. case date e of None \<Rightarrow> False | Some d \<Rightarrow> a \<le> d \<and> d \<le> b"
  from assms have ne: "f \<noteq> []" "t \<noteq> []" by (auto dest: Date_parse_nonempty)
  have eq: "(\<lambda>e. date_ge (date e) a \<and> date_le (date e) b) = ?P"
    by (auto simp: date_ge_def date_le_def fun_eq_iff split: option.splits)
  have "filter_to2 rt (Some t) (filter_from2 rt (Some f) (log' u)) = filter ?P (log' u)"
    using assms ne by (simp add: filter_to2_def filter_from2_def falsy_def string_of_def eq)
  then show ?thesis
    using assms by (simp add: get_logs2_def findById_def Let_def)
qed

text \<open>
  Claim C5.  On a request for the log of a user that exists, when \<open>parseInt\<close> reads
  the limit as a non-negative integer \<open>k\<close>, the returned log is the first \<open>k\<close> entries
  of the date-filtered log (all of them when \<open>k\<close> is at least their number).  In every
  response that carries a log, \<open>count\<close> is the length of that log.
\<close>

theorem get_logs_limit:
  "(objectIdIsValid rt userId \<and> connected s \<and> lookup s (castObjectId rt userId) = Some u
     \<and> parseInt l = Fin (of_int k) \<and> 0 \<le> k
    \<longrightarrow>
     fst (get_logs rt s userId from to (Some l))
       = respond 200
           (LogsJson (user_id u) (username u)
              (length (take (nat k) (filter_to rt to (filter_from rt from (log' u)))))
              (map (format_entry rt) (take (nat k) (filter_to rt to (filter_from rt from (log' u)))))))
   \<and> (\<forall>i n c entries.
         body (fst (get_logs rt s userId from to limit)) = LogsJson i n c entries
         \<longrightarrow> c = length entries)"
proof (intro conjI impI allI)
  assume h: "objectIdIsValid rt userId \<and> connected s \<and> lookup s (castObjectId rt userId) = Some u
     \<and> parseInt l = Fin (of_int k) \<and> 0 \<le> k"
  then have "l \<noteq> []" using parseInt_empty by auto
  then have "apply_limit (Some l) xs = take (nat k) xs" for xs :: "exercise list"
    using h by (simp add: apply_limit_def falsy_def string_of_def isNaN_def slice0_nonneg)
  then show "fst (get_logs rt s userId from to (Some l))
       = respond 200
           (LogsJson (user_id u) (username u)
              (length (take (nat k) (filter_to rt to (filter_from rt from (log' u)))))
              (map (format_entry rt) (take (nat k) (filter_to rt to (filter_from rt from (log' u))))))"
    using h by (simp add: get_logs_def findById_def Let_def)
next
  fix i n c entries
  assume "body (fst (get_logs rt s userId from to limit)) = LogsJson i n c entries"
  then show "c = length entries"
    by (auto simp: get_logs_def findById_def Let_def respond_def
             split: if_splits option.splits sum.splits prod.splits)
qed

theorem get_logs_limit_witness:
  "parseInt ''2'' = Fin (of_int 2)
   \<and> fst (get_logs sample_runtime sample_store ''64b000000000000000000001'' None None (Some ''2''))
       = respond 200
           (LogsJson ''64b000000000000000000001'' ''alice'' 2
              [LogEntry ''run'' (Fin 30) ''Sun Jan 15 2023'',
               LogEntry ''swim'' (Fin 45) ''Mon Feb 20 2023''])"
proof -
  have a: "objectIdIsValid sample_runtime ''64b000000000000000000001''"
    by code_simp
  have b: "connected sample_store"
    by (simp add: sample_store_def)
  have c: "lookup sample_store (castObjectId sample_runtime ''64b000000000000000000001'') = Some alice"
    by code_simp
  have d: "parseInt ''2'' = Fin (of_int 2)"
    by code_simp
  have "fst (get_logs sample_runtime sample_store ''64b000000000000000000001'' None None (Some ''2''))
       = respond 200
           (LogsJson (user_id alice) (username alice)
              (length (take (nat 2) (filter_to sample_runtime None (filter_from sample_runtime None (log' alice)))))
              (map (format_entry sample_runtime)
                 (take (nat 2) (filter_to sample_runtime None (filter_from sample_runtime None (log' alice))))))"
    using a b c d
      get_logs_limit [of sample_runtime "''64b000000000000000000001''" sample_store alice
        "''2''" 2 None None None]
    by simp
  also have "\<dots> = respond 200
           (LogsJson ''64b000000000000000000001'' ''alice'' 2
              [LogEntry ''run'' (Fin 30) ''Sun Jan 15 2023'',
               LogEntry ''swim'' (Fin 45) ''Mon Feb 20 2023''])"
    by code_simp
  finally show ?thesis
    using d by simp
qed

text \<open>
  The second variant reads the limit with \<open>Number\<close>: a limit that is a non-negative
  integer keeps the first entries in the same way, and \<open>count\<close> is the length of the log.
\<close>

lemma get_logs2_limit:
  "(objectIdIsValid rt userId \<and> connected s \<and> lookup s (castObjectId rt userId) = Some u
     \<and> l \<noteq> [] \<and> StringToNumber l = Fin (of_int k) \<and> 0 \<le> k
    \<longrightarrow>
     fst (get_logs2 rt s userId from to (Some l))
       = respond 200
           (LogsJson (user_id u) (username u)
              (length (take (nat k) (filter_to2 rt to (filter_from2 rt from (log' u)))))
              (map (format_entry2 rt) (take (nat k) (filter_to2 rt to (filter_from2 rt from (log' u)))))))
   \<and> (\<forall>i n c entries.
         body (fst (get_logs2 rt s userId from to limit)) = LogsJson i n c entries
         \<longrightarrow> c = length entries)"
proof (intro conjI impI allI)
  assume h: "objectIdIsValid rt userId \<and> connected s \<and> lookup s (castObjectId rt userId) = Some u
     \<and> l \<noteq> [] \<and> StringToNumber l = Fin (of_int k) \<and> 0 \<le> k"
  then have "apply_limit2 (Some l) xs = take (nat k) xs" for xs :: "exercise list"
    by (simp add: apply_limit2_def falsy_def string_of_def slice0_nonneg)
  then show "fst (get_logs2 rt s userId from to (Some l))
       = respond 200
           (LogsJson (user_id u) (username u)
              (length (take (nat k) (filter_to2 rt to (filter_from2 rt from (log' u)))))
              (map (format_entry2 rt) (take (nat k) (filter_to2 rt to (filter_from2 rt from (log' u))))))"
    using h by (simp add: get_logs2_def findById_def Let_def)
next
  fix i n c entries
  assume "body (fst (get_logs2 rt s userId from to limit)) = LogsJson i n c entries"
  then show "c = length entries"
    by (auto simp: get_logs2_def findById_def Let_def respond_def
             split: if_splits option.splits sum.splits prod.splits)
qed

subsection \<open>Requests that fail\<close>

text \<open>
  Claim C2.  For a request to add an exercise whose description and duration are
  present and non-empty: a malformed identifier is answered 400 with the store
  untouched; a well-formed identifier that names no user is answered 404, the store
  being reachable; neither answer is a 500.
\<close>

theorem add_exercise_unknown_user:
  assumes "\<not> falsy description_field" and "\<not> falsy duration_field"
  shows "(\<not> objectIdIsValid rt userId \<longrightarrow>
            add_exercise rt s userId description_field duration_field date_field
              = (respond 400 (ErrorJson ''Invalid user ID format''), s))
       \<and> (objectIdIsValid rt userId \<and> connected s \<and> lookup s (castObjectId rt userId) = None \<longrightarrow>
            fst (add_exercise rt s userId description_field duration_field date_field)
              = respond 404 (ErrorJson ''User not found''))
       \<and> (\<not> objectIdIsValid rt userId
            \<or> (connected s \<and> lookup s (castObjectId rt userId) = None) \<longrightarrow>
            status (fst (add_exercise rt s userId description_field duration_field date_field))
              \<noteq> 500)"
  using assms
  by (auto simp: add_exercise_def respond_def findById_def Let_def)

theorem add_exercise_unknown_user_witness:
  "\<not> falsy (Some ''run'') \<and> \<not> falsy (Some ''30'')
   \<and> add_exercise sample_runtime sample_store ''xyz'' (Some ''run'') (Some ''30'') None
       = (respond 400 (ErrorJson ''Invalid user ID format''), sample_store)
   \<and> fst (add_exercise sample_runtime sample_store ''64b000000000000000000009''
             (Some ''run'') (Some ''30'') None)
       = respond 404 (ErrorJson ''User not found'')
   \<and> status (fst (add_exercise sample_runtime sample_store ''64b000000000000000000009''
                     (Some ''run'') (Some ''30'') None)) \<noteq> 500"
proof -
  have f: "\<not> falsy (Some ''run'')" "\<not> falsy (Some ''30'')"
    by (simp_all add: falsy_def)
  have a: "\<not> objectIdIsValid sample_runtime ''xyz''"
    by (simp add: sample_runtime_def)
  have b: "objectIdIsValid sample_runtime ''64b000000000000000000009''"
    by code_simp
  have c: "connected sample_store"
    by (simp add: sample_store_def)
  have d: "lookup sample_store (castObjectId sample_runtime ''64b000000000000000000009'') = None"
    by code_simp
  show ?thesis
    using f a b c d
      add_exercise_unknown_user [OF f, of sample_runtime "''xyz''" sample_store None]
      add_exercise_unknown_user [OF f, of sample_runtime "''64b000000000000000000009''"
        sample_store None]
    by (simp add: respond_def)
qed

text \<open>The second variant answers a malformed or unknown identifier in the same way.\<close>

lemma add_exercise2_unknown_user:
  assumes "\<not> falsy description_field" and "\<not> falsy duration_field"
  shows "(\<not> objectIdIsValid rt userId \<longrightarrow>
            add_exercise2 rt s userId description_field duration_field date_field
              = (respond 400 (ErrorJson ''Invalid user ID format''), s))
       \<and> (objectIdIsValid rt userId \<and> connected s \<and> lookup s (castObjectId rt userId) = None \<longrightarrow>
            fst (add_exercise2 rt s userId description_field duration_field date_field)
              = respond 404 (ErrorJson ''User not found''))"
  using assms
  by (auto simp: add_exercise2_def respond_def findById_def Let_def)

text \<open>
  Claim C9.  A request of the first variant to create a user or to add an exercise
  that is answered 400 or 404 has issued no mutating store call: the documents and
  the connection are as before, and the journal has gained no \<open>save\<close>.  A rejected
  request to create a user has issued no store call at all.
\<close>

theorem failed_request_leaves_store:
  "(status (fst (create_user rt s username_field)) = 400
      \<or> status (fst (create_user rt s username_field)) = 404
    \<longrightarrow> snd (create_user rt s username_field) = s)
   \<and> (status (fst (add_exercise rt s userId description_field duration_field date_field)) = 400
      \<or> status (fst (add_exercise rt s userId description_field duration_field date_field)) = 404
    \<longrightarrow> users (snd (add_exercise rt s userId description_field duration_field date_field)) = users s
        \<and> connected (snd (add_exercise rt s userId description_field duration_field date_field))
            = connected s
        \<and> filter mutating
              (journal (snd (add_exercise rt s userId description_field duration_field date_field)))
            = filter mutating (journal s))"
proof (intro conjI impI)
  assume "status (fst (create_user rt s username_field)) = 400
      \<or> status (fst (create_user rt s username_field)) = 404"
  then show "snd (create_user rt s username_field) = s"
    by (auto simp: create_user_def respond_def split: if_splits prod.splits sum.splits)
next
  let ?R = "add_exercise rt s userId description_field duration_field date_field"
  assume a: "status (fst ?R) = 400 \<or> status (fst ?R) = 404"
  have "users (snd ?R) = users s \<and> connected (snd ?R) = connected s
        \<and> filter mutating (journal (snd ?R)) = filter mutating (journal s)"
    using a
    by (auto simp: add_exercise_def respond_def findById_def Let_def mutating_def
             split: if_splits prod.splits sum.splits option.splits)
  then show "users (snd ?R) = users s" "connected (snd ?R) = connected s"
    "filter mutating (journal (snd ?R)) = filter mutating (journal s)" by simp_all
qed

theorem failed_request_leaves_store_witness:
  "status (fst (create_user sample_runtime sample_store (Some ''   ''))) = 400
   \<and> snd (create_user sample_runtime sample_store (Some ''   '')) = sample_store
   \<and> status (fst (add_exercise sample_runtime sample_store ''64b000000000000000000009''
                     (Some ''run'') (Some ''30'') None)) = 404
   \<and> users (snd (add_exercise sample_runtime sample_store ''64b000000000000000000009''
                     (Some ''run'') (Some ''30'') None)) = users sample_store
   \<and> filter mutating (journal (snd (add_exercise sample_runtime sample_store
                     ''64b000000000000000000009'' (Some ''run'') (Some ''30'') None)))
       = filter mutating (journal sample_store)"
proof -
  have a: "status (fst (create_user sample_runtime sample_store (Some ''   ''))) = 400"
    by code_simp
  have b: "status (fst (add_exercise sample_runtime sample_store ''64b000000000000000000009''
                     (Some ''run'') (Some ''30'') None)) = 404"
    by code_simp
  show ?thesis
    using a b
      failed_request_leaves_store [of sample_runtime sample_store "Some ''   ''"
        "''64b000000000000000000009''" "Some ''run''" "Some ''30''" None]
    by simp
qed

text \<open>The rejected requests of the second variant leave the store alone as well.\<close>

lemma failed_request2_leaves_store:
  "(status (fst (create_user2 rt s username_field)) = 400
      \<or> status (fst (create_user2 rt s username_field)) = 404
    \<longrightarrow> snd (create_user2 rt s username_field) = s)
   \<and> (status (fst (add_exercise2 rt s userId description_field duration_field date_field)) = 400
      \<or> status (fst (add_exercise2 rt s userId description_field duration_field date_field)) = 404
    \<longrightarrow> users (snd (add_exercise2 rt s userId description_field duration_field date_field)) = users s
        \<and> connected (snd (add_exercise2 rt s userId description_field duration_field date_field))
            = connected s
        \<and> filter mutating
              (journal (snd (add_exercise2 rt s userId description_field duration_field date_field)))
            = filter mutating (journal s))"
proof (intro conjI impI)
  assume "status (fst (create_user2 rt s username_field)) = 400
      \<or> status (fst (create_user2 rt s username_field)) = 404"
  then show "snd (create_user2 rt s username_field) = s"
    by (auto simp: create_user2_def respond_def split: if_splits prod.splits sum.splits)
next
  let ?R = "add_exercise2 rt s userId description_field duration_field date_field"
  assume a: "status (fst ?R) = 400 \<or> status (fst ?R) = 404"
  have "users (snd ?R) = users s \<and> connected (snd ?R) = connected s
        \<and> filter mutating (journal (snd ?R)) = filter mutating (journal s)"
    using a
    by (auto simp: add_exercise2_def respond_def findById_def Let_def mutating_def
             split: if_splits prod.splits sum.splits option.splits)
  then show "users (snd ?R) = users s" "connected (snd ?R) = connected s"
    "filter mutating (journal (snd ?R)) = filter mutating (journal s)" by simp_all
qed

subsection \<open>Creating a user\<close>

lemma last_dropWhile: "dropWhile P xs \<noteq> [] \<Longrightarrow> last (dropWhile P xs) = last xs"
  by (induction xs) (auto split: if_splits)

lemma trim_ends:
  assumes "trim w \<noteq> []"
  shows "\<not> isWhiteSpace (hd (trim w)) \<and> \<not> isWhiteSpace (last (trim w))"
proof -
  let ?a = "dropWhile isWhiteSpace w"
  let ?b = "dropWhile isWhiteSpace (rev ?a)"
  from assms have b: "?b \<noteq> []" by (simp add: trim_def)
  have a: "?a \<noteq> []"
  proof
    assume e: "?a = []"
    have "?b = []" unfolding e by simp
    with b show False by blast
  qed
  have "last (trim w) = hd ?b" using b by (simp add: trim_def last_rev)
  moreover have "\<not> isWhiteSpace (hd ?b)" using b by (rule hd_dropWhile)
  moreover have "hd (trim w) = last ?b" using b by (simp add: trim_def hd_rev)
  moreover have "last ?b = last (rev ?a)" using b by (rule last_dropWhile)
  moreover have "last (rev ?a) = hd ?a" using a by (simp add: last_rev)
  moreover have "\<not> isWhiteSpace (hd ?a)" using a by (rule hd_dropWhile)
  ultimately show ?thesis by simp
qed

text \<open>
  The first variant rejects a username that is absent or blank with 400 and leaves the
  store alone; it stores any other username trimmed, without white space at either end.
\<close>

lemma create_user_validates:
  "(falsy username_field \<or> trim (string_of username_field) = [] \<longrightarrow>
      create_user rt s username_field = (respond 400 (ErrorJson ''Username is required''), s))
   \<and> (\<not> falsy username_field \<and> trim (string_of username_field) \<noteq> []
        \<and> connected s \<and> lookup s (newObjectId rt) = None \<longrightarrow>
      create_user rt s username_field
        = (respond 200 (UserJson (trim (string_of username_field)) (newObjectId rt)),
           s\<lparr>journal := journal s @ [Save (newObjectId rt)],
              users := users s @ [\<lparr>user_id = newObjectId rt,
                                    username = trim (string_of username_field), log' = []\<rparr>]\<rparr>)
      \<and> \<not> isWhiteSpace (hd (trim (string_of username_field)))
      \<and> \<not> isWhiteSpace (last (trim (string_of username_field))))"
  by (auto simp: create_user_def save_new_def valid_user_def Let_def dest: trim_ends)

text \<open>
  Claim C1.  A request to create a user with a blank username is to fail with 400 and
  store nothing, and a stored username is to have no white space at its ends.  The
  second variant tests the username for emptiness only: it answers 201 to the username
  of two spaces and stores it as it came, and it stores \<open>'' bob ''\<close> with its spaces.
\<close>

theorem create_user2_stores_blank_username:
  "trim ''  '' = []
   \<and> create_user2 sample_runtime sample_store (Some ''  '')
     = (respond 201 (UserJson ''  '' ''64b000000000000000000002''),
        \<lparr>connected = True,
         users = [alice, bob,
                  \<lparr>user_id = ''64b000000000000000000002'', username = ''  '', log' = []\<rparr>],
         journal = [Save ''64b000000000000000000002'']\<rparr>)
   \<and> isWhiteSpace (hd '' bob '')
   \<and> create_user2 sample_runtime sample_store (Some '' bob '')
     = (respond 201 (UserJson '' bob '' ''64b000000000000000000002''),
        \<lparr>connected = True,
         users = [alice, bob,
                  \<lparr>user_id = ''64b000000000000000000002'', username = '' bob '', log' = []\<rparr>],
         journal = [Save ''64b000000000000000000002'']\<rparr>)"
  by code_simp

subsection \<open>Unparseable filters\<close>

lemma filter_from_unparseable:
  "Date_parse rt f = None \<Longrightarrow> filter_from rt (Some f) logs = filter_from rt None logs"
  by (simp add: filter_from_def falsy_def string_of_def)

lemma filter_to_unparseable:
  "Date_parse rt t = None \<Longrightarrow> filter_to rt (Some t) logs = filter_to rt None logs"
  by (simp add: filter_to_def falsy_def string_of_def)

lemma apply_limit_unparseable:
  "parseInt l = NaN \<Longrightarrow> apply_limit (Some l) logs = apply_limit None logs"
  by (simp add: apply_limit_def falsy_def string_of_def isNaN_def)

text \<open>
  The first variant ignores a \<open>from\<close>, \<open>to\<close> or \<open>limit\<close> that does not parse: the
  response and the store are those of the request without that parameter, and a
  request on a user that exists is answered 200.
\<close>

lemma get_logs_ignores_unparseable:
  "(Date_parse rt f = None \<longrightarrow>
      get_logs rt s userId (Some f) to limit = get_logs rt s userId None to limit)
   \<and> (Date_parse rt t = None \<longrightarrow>
      get_logs rt s userId from (Some t) limit = get_logs rt s userId from None limit)
   \<and> (parseInt l = NaN \<longrightarrow>
      get_logs rt s userId from to (Some l) = get_logs rt s userId from to None)
   \<and> (objectIdIsValid rt userId \<and> connected s \<and> lookup s (castObjectId rt userId) = Some u \<longrightarrow>
      status (fst (get_logs rt s userId from to limit)) = 200)"
  by (auto simp: get_logs_def filter_from_unparseable filter_to_unparseable
        apply_limit_unparseable findById_def Let_def respond_def split: option.splits)

text \<open>
  Claim C3.  A \<open>from\<close>, \<open>to\<close> or \<open>limit\<close> that does not parse is to be ignored, the
  response being that of the request without it.  The second variant compares every
  date with the invalid date, which is never true, and slices to \<open>NaN\<close>, which is zero:
  on the sample store, whose user has three exercises, each of \<open>from = abc\<close>,
  \<open>to = abc\<close> and \<open>limit = abc\<close> returns an empty log with \<open>count\<close> 0.
\<close>

theorem get_logs2_unparseable_filter_empties_log:
  "Date_parse sample_runtime ''abc'' = None
   \<and> StringToNumber ''abc'' = NaN
   \<and> fst (get_logs2 sample_runtime sample_store ''64b000000000000000000001'' None None None)
     = respond 200
         (LogsJson ''64b000000000000000000001'' ''alice'' 3
            [LogEntry ''run'' (Fin 30) ''Sun Jan 15 2023'',
             LogEntry ''swim'' (Fin 45) ''Mon Feb 20 2023'',
             LogEntry ''walk'' (Fin 20) ''Sun Mar 05 2023''])
   \<and> fst (get_logs2 sample_runtime sample_store ''64b000000000000000000001'' (Some ''abc'') None None)
     = respond 200 (LogsJson ''64b000000000000000000001'' ''alice'' 0 [])
   \<and> fst (get_logs2 sample_runtime sample_store ''64b000000000000000000001'' None (Some ''abc'') None)
     = respond 200 (LogsJson ''64b000000000000000000001'' ''alice'' 0 [])
   \<and> fst (get_logs2 sample_runtime sample_store ''64b000000000000000000001'' None None (Some ''abc''))
     = respond 200 (LogsJson ''64b000000000000000000001'' ''alice'' 0 [])"
  by code_simp

subsection \<open>The date and the duration of a new exercise\<close>

lemma save_appended:
  assumes "connected s" and "lookup s (user_id u) = Some u" and "valid_user (u\<lparr>log' := log' u @ [ex]\<rparr>)"
  shows "save s (u\<lparr>log' := log' u @ [ex]\<rparr>)
     = (Inr (u\<lparr>log' := log' u @ [ex]\<rparr>),
        s\<lparr>journal := journal s @ [Save (user_id u)],
           users := map (\<lambda>v. if user_id v = user_id u then u\<lparr>log' := log' u @ [ex]\<rparr> else v) (users s)\<rparr>)"
  using assms by (simp add: save_def Let_def lookup_def)

lemma lookup_user_id: "lookup s i = Some u \<Longrightarrow> user_id u = i"
  by (auto simp: lookup_def find_Some_iff)

lemma find_replace:
  "find (\<lambda>v. user_id v = i) xs = Some u \<Longrightarrow> user_id u' = i \<Longrightarrow>
   find (\<lambda>v. user_id v = i) (map (\<lambda>v. if user_id v = i then u' else v) xs) = Some u'"
  by (induction xs) (auto split: if_splits)

text \<open>The handler of the first variant once the fields, the identifier and the user have been checked.\<close>

lemma add_exercise_checked:
  assumes "\<not> falsy description_field" and "\<not> falsy duration_field"
    and "objectIdIsValid rt userId" and "connected s"
    and "lookup s (castObjectId rt userId) = Some u"
  shows "add_exercise rt s userId description_field duration_field date_field =
     (case exerciseDate rt date_field of
        None \<Rightarrow> (respond 400 (ErrorJson ''Invalid date format''),
                  s\<lparr>journal := journal s @ [FindById userId]\<rparr>)
      | Some t \<Rightarrow>
          (case save (s\<lparr>journal := journal s @ [FindById userId]\<rparr>)
                  (u\<lparr>log' := log' u @ [\<lparr>description = string_of description_field,
                                          duration = parseInt (string_of duration_field),
                                          date = Some t\<rparr>]\<rparr>) of
             (Inl err, s2) \<Rightarrow> (respond 500 (CaughtJson err), s2)
           | (Inr _, s2) \<Rightarrow>
               (respond 200
                  (ExerciseJson (user_id u) (username u) (string_of description_field)
                     (parseInt (string_of duration_field)) (toDateString rt (Some t))),
                s2)))"
  using assms
  by (simp add: add_exercise_def findById_def Let_def split: option.splits prod.splits sum.splits)

text \<open>
  In the first variant, after the three checks: an absent or blank date is never
  answered 400, and the exercise is stored with the current time when its document is
  valid; a date that is present, not blank and does not parse is answered 400 with no
  \<open>save\<close> issued.
\<close>

lemma add_exercise_date:
  assumes "\<not> falsy description_field" and "\<not> falsy duration_field"
    and "objectIdIsValid rt userId" and "connected s"
    and "lookup s (castObjectId rt userId) = Some u"
  shows
   "(falsy date_field \<or> trim (string_of date_field) = [] \<longrightarrow>
       status (fst (add_exercise rt s userId description_field duration_field date_field)) \<noteq> 400
       \<and> (valid_user u \<and> parseInt (string_of duration_field) \<noteq> NaN \<longrightarrow>
            add_exercise rt s userId description_field duration_field date_field
              = (respond 200
                   (ExerciseJson (user_id u) (username u) (string_of description_field)
                      (parseInt (string_of duration_field))
                      (toDateString rt (Some (currentTime rt)))),
                 s\<lparr>journal := journal s @ [FindById userId, Save (user_id u)],
                    users := map (\<lambda>v. if user_id v = user_id u
                        then u\<lparr>log' := log' u @ [\<lparr>description = string_of description_field,
                                duration = parseInt (string_of duration_field),
                                date = Some (currentTime rt)\<rparr>]\<rparr>
                        else v) (users s)\<rparr>)))
    \<and> (\<not> falsy date_field \<and> trim (string_of date_field) \<noteq> []
         \<and> Date_parse rt (string_of date_field) = None \<longrightarrow>
       add_exercise rt s userId description_field duration_field date_field
         = (respond 400 (ErrorJson ''Invalid date format''),
            s\<lparr>journal := journal s @ [FindById userId]\<rparr>))"
proof (intro conjI impI)
  note R = add_exercise_checked [OF assms, of date_field]
  let ?s1 = "s\<lparr>journal := journal s @ [FindById userId]\<rparr>"
  {
    assume b: "falsy date_field \<or> trim (string_of date_field) = []"
    then have d: "exerciseDate rt date_field = Some (currentTime rt)"
      by (auto simp: exerciseDate_def)
    show "status (fst (add_exercise rt s userId description_field duration_field date_field)) \<noteq> 400"
      by (simp add: R d respond_def split: prod.splits sum.splits)
    assume v: "valid_user u \<and> parseInt (string_of duration_field) \<noteq> NaN"
    let ?ex = "\<lparr>description = string_of description_field,
                duration = parseInt (string_of duration_field), date = Some (currentTime rt)\<rparr>"
    have ne: "string_of description_field \<noteq> []"
      using assms(1) by (auto simp: falsy_def string_of_def split: option.splits)
    have v': "valid_user (u\<lparr>log' := log' u @ [?ex]\<rparr>)"
      using v ne by (simp add: valid_user_def valid_exercise_def)
    have l: "lookup ?s1 (user_id u) = Some u"
      using assms(5) lookup_user_id [OF assms(5)] by (simp add: lookup_def)
    have c: "connected ?s1" using assms(4) by simp
    show "add_exercise rt s userId description_field duration_field date_field
              = (respond 200
                   (ExerciseJson (user_id u) (username u) (string_of description_field)
                      (parseInt (string_of duration_field))
                      (toDateString rt (Some (currentTime rt)))),
                 s\<lparr>journal := journal s @ [FindById userId, Save (user_id u)],
                    users := map (\<lambda>v. if user_id v = user_id u
                        then u\<lparr>log' := log' u @ [\<lparr>description = string_of description_field,
                                duration = parseInt (string_of duration_field),
                                date = Some (currentTime rt)\<rparr>]\<rparr>
                        else v) (users s)\<rparr>)"
      by (simp add: R d save_appended [OF c l v'])
  }
  {
    assume "\<not> falsy date_field \<and> trim (string_of date_field) \<noteq> []
         \<and> Date_parse rt (string_of date_field) = None"
    then have "exerciseDate rt date_field = None"
      by (simp add: exerciseDate_def)
    then show "add_exercise rt s userId description_field duration_field date_field
         = (respond 400 (ErrorJson ''Invalid date format''), ?s1)"
      by (simp add: R)
  }
qed

text \<open>
  Claim C6.  After the three checks a date that is present, not blank and unparseable
  is to be answered 400, and a blank date is to stand for the current date.  The second
  variant parses every non-empty date and validates none: the date \<open>abc\<close> reaches
  \<open>save\<close> as the invalid date, which the schema refuses, and the answer is 500; so is
  the answer to the date of two spaces.  Nothing is stored in either case.
\<close>

theorem add_exercise2_unparseable_date:
  "Date_parse sample_runtime ''abc'' = None
   \<and> add_exercise2 sample_runtime sample_store ''64b000000000000000000001''
       (Some ''run'') (Some ''30'') (Some ''abc'')
     = (respond 500 (CaughtJson ValidationError),
        \<lparr>connected = True, users = [alice, bob],
         journal = [FindById ''64b000000000000000000001'', Save ''64b000000000000000000001'']\<rparr>)
   \<and> trim ''  '' = []
   \<and> add_exercise2 sample_runtime sample_store ''64b000000000000000000001''
       (Some ''run'') (Some ''30'') (Some ''  '')
     = (respond 500 (CaughtJson ValidationError),
        \<lparr>connected = True, users = [alice, bob],
         journal = [FindById ''64b000000000000000000001'', Save ''64b000000000000000000001'']\<rparr>)"
  by code_simp

lemma round_half_even_of_int: "round_half_even (of_int z) = z"
  by (simp add: round_half_even_def)

lemma is_integer_of_int: "is_integer (Fin (of_int z))"
  by (simp add: is_integer_def)

lemma to_double_of_int:
  "to_double (of_int n) = PInf \<or> to_double (of_int n) = NInf \<or> is_integer (to_double (of_int n))"
proof (cases "n = 0")
  case True
  then show ?thesis by (simp add: to_double_def is_integer_def)
next
  case False
  define a :: rat where "a = \<bar>of_int n\<bar>"
  define p where "p = max (ilog2 a - 52) (- 1074)"
  define m where "m = round_half_even (a / pow2 p)"
  have a_int: "a = of_int \<bar>n\<bar>" by (simp add: a_def)
  have sg: "sgn (of_int n :: rat) = of_int (sgn n)" by (simp add: sgn_if)
  have "is_integer (Fin (sgn (of_int n) * of_int m * pow2 p))"
  proof (cases "0 \<le> p")
    case True
    then have "pow2 p = of_int (2 ^ nat p)" by (simp add: pow2_def)
    then have "sgn (of_int n) * of_int m * pow2 p = of_int (sgn n * m * 2 ^ nat p)"
      by (simp add: sg)
    then show ?thesis by (simp only: is_integer_of_int)
  next
    case False
    then have pw: "pow2 p = 1 / 2 ^ nat (- p)" by (simp add: pow2_def)
    then have "a / pow2 p = of_int (\<bar>n\<bar> * 2 ^ nat (- p))" by (simp add: a_int)
    then have "m = \<bar>n\<bar> * 2 ^ nat (- p)" by (simp only: m_def round_half_even_of_int)
    then have "sgn (of_int n) * of_int m * pow2 p = of_int (sgn n * \<bar>n\<bar>)"
      by (simp add: pw sg)
    then show ?thesis by (simp only: is_integer_of_int)
  qed
  then show ?thesis
    using False by (simp add: to_double_def Let_def a_def [symmetric] p_def [symmetric] m_def [symmetric])
qed

lemma parseInt_form: "parseInt str = NaN \<or> (\<exists>n. parseInt str = to_double (of_int n))"
  unfolding parseInt_def Let_def by (rule if_split [THEN iffD2]) blast

lemma parseInt_cases:
  "parseInt str = NaN \<or> parseInt str = PInf \<or> parseInt str = NInf \<or> is_integer (parseInt str)"
  using parseInt_form [of str] to_double_of_int by metis

text \<open>
  In the first variant a request that succeeds has stored and echoed
  \<open>parseInt(duration)\<close>, which is not \<open>NaN\<close>: it is an integer, or an infinity when
  the digits exceed the range of a double.
\<close>

lemma add_exercise_duration:
  assumes "status (fst (add_exercise rt s userId description_field duration_field date_field)) = 200"
  shows "\<exists>u t. lookup s (castObjectId rt userId) = Some u
           \<and> exerciseDate rt date_field = Some t
           \<and> fst (add_exercise rt s userId description_field duration_field date_field)
               = respond 200
                   (ExerciseJson (user_id u) (username u) (string_of description_field)
                      (parseInt (string_of duration_field)) (toDateString rt (Some t)))
           \<and> lookup (snd (add_exercise rt s userId description_field duration_field date_field))
                 (castObjectId rt userId)
               = Some (u\<lparr>log' := log' u @ [\<lparr>description = string_of description_field,
                                       duration = parseInt (string_of duration_field),
                                       date = Some t\<rparr>]\<rparr>)
           \<and> parseInt (string_of duration_field) \<noteq> NaN
           \<and> (is_integer (parseInt (string_of duration_field))
                \<or> parseInt (string_of duration_field) = PInf
                \<or> parseInt (string_of duration_field) = NInf)"
proof -
  let ?R = "add_exercise rt s userId description_field duration_field date_field"
  let ?s1 = "s\<lparr>journal := journal s @ [FindById userId]\<rparr>"
  from assms have f: "\<not> falsy description_field" "\<not> falsy duration_field"
    and v: "objectIdIsValid rt userId" and c: "connected s"
    by (auto simp: add_exercise_def respond_def findById_def Let_def split: if_splits)
  from assms f v c obtain u where u: "lookup s (castObjectId rt userId) = Some u"
    by (cases "lookup s (castObjectId rt userId)")
       (auto simp: add_exercise_def respond_def findById_def Let_def)
  note R = add_exercise_checked [OF f v c u, of date_field]
  from assms obtain t where t: "exerciseDate rt date_field = Some t"
    by (cases "exerciseDate rt date_field") (auto simp: R respond_def)
  let ?ex = "\<lparr>description = string_of description_field,
              duration = parseInt (string_of duration_field), date = Some t\<rparr>"
  let ?u = "u\<lparr>log' := log' u @ [?ex]\<rparr>"
  have id: "user_id u = castObjectId rt userId" by (rule lookup_user_id [OF u])
  from assms have ok: "\<exists>x. fst (save ?s1 ?u) = Inr x"
    by (cases "save ?s1 ?u"; cases "fst (save ?s1 ?u)") (auto simp: R t respond_def)
  then have val: "valid_user ?u"
    by (auto simp: save_def Let_def split: if_splits option.splits)
  then have nn: "parseInt (string_of duration_field) \<noteq> NaN"
    by (simp add: valid_user_def valid_exercise_def)
  have l: "lookup ?s1 (user_id u) = Some u" using u id by (simp add: lookup_def)
  have sv: "save ?s1 ?u
     = (Inr ?u, ?s1\<lparr>journal := journal ?s1 @ [Save (user_id u)],
           users := map (\<lambda>v. if user_id v = user_id u then ?u else v) (users ?s1)\<rparr>)"
    using c l val by (intro save_appended) simp_all
  have resp: "?R = (respond 200
                   (ExerciseJson (user_id u) (username u) (string_of description_field)
                      (parseInt (string_of duration_field)) (toDateString rt (Some t))),
                ?s1\<lparr>journal := journal ?s1 @ [Save (user_id u)],
                  users := map (\<lambda>v. if user_id v = user_id u then ?u else v) (users ?s1)\<rparr>)"
    by (simp add: R t sv)
  have stored: "lookup (snd ?R) (castObjectId rt userId) = Some ?u"
    using u by (simp add: resp lookup_def id [symmetric] find_replace)
  show ?thesis
    using u t resp stored nn parseInt_cases [of "string_of duration_field"] by auto
qed

text \<open>
  Claim C8.  The duration stored and echoed by a successful request is to be an
  integer.  The second variant converts with \<open>Number\<close>, which keeps a fraction: the
  duration \<open>1.5\<close> is stored and echoed as \<open>3 / 2\<close>.
\<close>

theorem add_exercise2_stores_fraction:
  "add_exercise2 sample_runtime sample_store ''64b000000000000000000001''
       (Some ''run'') (Some ''1.5'') (Some ''2023-01-15'')
     = (respond 201
          (ExerciseJson ''64b000000000000000000001'' ''alice'' ''run'' (Fin (3 / 2)) ''Sun Jan 15 2023''),
        \<lparr>connected = True,
         users = [alice\<lparr>log' := log' alice
                    @ [\<lparr>description = ''run'', duration = Fin (3 / 2), date = Some 1673740800000\<rparr>]\<rparr>,
                  bob],
         journal = [FindById ''64b000000000000000000001'', Save ''64b000000000000000000001'']\<rparr>)
   \<and> is_integer (Fin (3 / 2)) = False"
  by code_simp

subsection \<open>The calendar day of a time value\<close>

text \<open>The year found from the estimate is the year whose days contain the day.\<close>

lemma div_step:
  fixes x k :: int
  assumes "0 < k"
  shows "(x + 1) div k = (if (x + 1) mod k = 0 then x div k + 1 else x div k)"
proof -
  define q r where "q = x div k" and "r = x mod k"
  have x: "x = k * q + r" and r: "0 \<le> r" "r < k"
    using assms by (simp_all add: q_def r_def)
  show ?thesis
  proof (cases "r + 1 = k")
    case True
    then have e: "x + 1 = k * (q + 1) + 0" using x by (simp add: algebra_simps)
    have "(x + 1) div k = q + 1" by (rule int_div_pos_eq [OF e]) (use assms in simp_all)
    moreover have "(x + 1) mod k = 0" by (rule int_mod_pos_eq [OF e]) (use assms in simp_all)
    ultimately show ?thesis by (simp add: q_def)
  next
    case False
    then have b: "0 \<le> r + 1" "r + 1 < k" using r by simp_all
    have e: "x + 1 = k * q + (r + 1)" using x by simp
    have "(x + 1) div k = q" by (rule int_div_pos_eq [OF e b])
    moreover have "(x + 1) mod k = r + 1" by (rule int_mod_pos_eq [OF e b])
    ultimately show ?thesis using r by (simp add: q_def)
  qed
qed

lemma mod4_shift: "((y::int) - 1968) mod 4 = y mod 4"
proof -
  have "(y - 1968) = y + 4 * (- 492)" by simp
  then show ?thesis by (simp only: mod_mult_self2)
qed

lemma mod100_shift: "((y::int) - 1900) mod 100 = y mod 100"
proof -
  have "(y - 1900) = y + 100 * (- 19)" by simp
  then show ?thesis by (simp only: mod_mult_self2)
qed

lemma mod400_shift: "((y::int) - 1600) mod 400 = y mod 400"
proof -
  have "(y - 1600) = y + 400 * (- 4)" by simp
  then show ?thesis by (simp only: mod_mult_self2)
qed

lemma mod100_4: "(y::int) mod 100 = 0 \<Longrightarrow> y mod 4 = 0"
proof -
  assume "y mod 100 = 0"
  then have "100 dvd y" by (simp add: mod_eq_0_iff_dvd)
  moreover have "(4::int) dvd 100" by simp
  ultimately have "4 dvd y" by (rule dvd_trans [rotated])
  then show ?thesis by (simp add: mod_eq_0_iff_dvd)
qed

lemma mod400_100: "(y::int) mod 400 = 0 \<Longrightarrow> y mod 100 = 0"
proof -
  assume "y mod 400 = 0"
  then have "400 dvd y" by (simp add: mod_eq_0_iff_dvd)
  moreover have "(100::int) dvd 400" by simp
  ultimately have "100 dvd y" by (rule dvd_trans [rotated])
  then show ?thesis by (simp add: mod_eq_0_iff_dvd)
qed

lemma DayFromYear_step: "DayFromYear (y + 1) = DayFromYear y + 365 + InLeapYear y"
proof -
  have a: "(y + 1 - 1969) div 4 = (y - 1969) div 4 + (if y mod 4 = 0 then 1 else 0)"
    using div_step [of 4 "y - 1969"] mod4_shift [of y] by (simp add: algebra_simps)
  have b: "(y + 1 - 1901) div 100 = (y - 1901) div 100 + (if y mod 100 = 0 then 1 else 0)"
    using div_step [of 100 "y - 1901"] mod100_shift [of y] by (simp add: algebra_simps)
  have c: "(y + 1 - 1601) div 400 = (y - 1601) div 400 + (if y mod 400 = 0 then 1 else 0)"
    using div_step [of 400 "y - 1601"] mod400_shift [of y] by (simp add: algebra_simps)
  show ?thesis
    unfolding DayFromYear_def InLeapYear_def a b c
    using mod100_4 [of y] mod400_100 [of y] by auto
qed

lemma InLeapYear_range: "InLeapYear y = 0 \<or> InLeapYear y = 1"
  by (simp add: InLeapYear_def)

lemma DayFromYear_bounds:
  "146097 * (y - 1970) - 608 \<le> 400 * DayFromYear y"
  "400 * DayFromYear y \<le> 146097 * (y - 1970) + 596"
proof -
  define a b c where "a = (y - 1969) div 4" and "b = (y - 1901) div 100" and "c = (y - 1601) div 400"
  have a: "4 * a \<le> y - 1969" "y - 1969 \<le> 4 * a + 3"
    unfolding a_def by presburger+
  have b: "100 * b \<le> y - 1901" "y - 1901 \<le> 100 * b + 99"
    using pos_mod_sign [of 100 "y - 1901"] pos_mod_bound [of 100 "y - 1901"]
      mult_div_mod_eq [of 100 "y - 1901"] unfolding b_def by linarith+
  have c: "400 * c \<le> y - 1601" "y - 1601 \<le> 400 * c + 399"
    using pos_mod_sign [of 400 "y - 1601"] pos_mod_bound [of 400 "y - 1601"]
      mult_div_mod_eq [of 400 "y - 1601"] unfolding c_def by linarith+
  have d: "DayFromYear y = 365 * (y - 1970) + a - b + c"
    by (simp add: DayFromYear_def a_def b_def c_def)
  have a': "100 * y - 197200 \<le> 400 * a" "400 * a \<le> 100 * y - 196900"
    using a by linarith+
  have b': "4 * y - 8000 \<le> 400 * b" "400 * b \<le> 4 * y - 7604"
    using b by linarith+
  have c': "y - 2000 \<le> 400 * c" "400 * c \<le> y - 1601"
    using c by linarith+
  have e: "400 * DayFromYear y = 146000 * y - 287620000 + 400 * a - 400 * b + 400 * c"
    unfolding d by (simp add: algebra_simps)
  show "146097 * (y - 1970) - 608 \<le> 400 * DayFromYear y"
    unfolding e using a'(1) b'(2) c'(1) by (simp add: algebra_simps)
  show "400 * DayFromYear y \<le> 146097 * (y - 1970) + 596"
    unfolding e using a'(2) b'(1) c'(2) by (simp add: algebra_simps)
qed

lemma YearFromDay_unique:
  assumes "DayFromYear y \<le> D" and "D < DayFromYear (y + 1)"
  shows "YearFromDay D = y"
proof -
  define k r where "k = (D * 400) div 146097" and "r = (D * 400) mod 146097"
  define y0 where "y0 = 1970 + k"
  have m: "0 \<le> r" "r < 146097"
    by (simp_all add: r_def)
  have e: "146097 * k + r = D * 400"
    by (simp add: k_def r_def)
  have q: "146097 * (y0 - 1970) \<le> D * 400" "D * 400 < 146097 * (y0 - 1970) + 146097"
    using m e unfolding y0_def by simp_all
  have lo: "146097 * (y - 1970) - 608 \<le> 400 * D"
    using DayFromYear_bounds(1) [of y] assms(1) by linarith
  have hi: "400 * D < 146097 * (y + 1 - 1970) + 596"
    using DayFromYear_bounds(2) [of "y + 1"] assms(2) by linarith
  have r: "y - 1 \<le> y0" "y0 \<le> y + 1"
    using q lo hi by (simp_all add: algebra_simps)
  have s1: "DayFromYear (y + 2) > D"
    using DayFromYear_step [of "y + 1"] InLeapYear_range [of "y + 1"] assms(2)
    by (auto simp: algebra_simps)
  have s0: "DayFromYear (y - 1) \<le> D"
    using DayFromYear_step [of "y - 1"] InLeapYear_range [of "y - 1"] assms(1) by auto
  consider "y0 = y - 1" | "y0 = y" | "y0 = y + 1" using r by linarith
  then show ?thesis
  proof cases
    case 1
    then show ?thesis using assms by (simp add: YearFromDay_def k_def [symmetric] y0_def [symmetric] Let_def)
  next
    case 2
    then show ?thesis using assms by (simp add: YearFromDay_def k_def [symmetric] y0_def [symmetric] Let_def)
  next
    case 3
    have "\<not> DayFromYear (y0 + 1) \<le> D" using s1 3 by (simp add: add.commute)
    moreover have "\<not> DayFromYear y0 \<le> D" using assms(2) 3 by simp
    moreover have "y0 - 1 = y" using 3 by simp
    ultimately show ?thesis
      by (simp add: YearFromDay_def k_def [symmetric] y0_def [symmetric] Let_def)
  qed
qed

lemma month_cases:
  fixes m :: int
  assumes "1 \<le> m" and "m \<le> 12"
  shows "m = 1 \<or> m = 2 \<or> m = 3 \<or> m = 4 \<or> m = 5 \<or> m = 6
       \<or> m = 7 \<or> m = 8 \<or> m = 9 \<or> m = 10 \<or> m = 11 \<or> m = 12"
  using assms by presburger

lemma month_of_day:
  assumes "1 \<le> m" and "m \<le> 12" and "L = 0 \<or> L = 1"
    and "1 \<le> d" and "d \<le> MonthStart L m - MonthStart L (m - 1)"
  shows "MonthFromDay L (MonthStart L (m - 1) + d - 1) = m - 1"
    and "MonthStart L (m - 1) + d - 1 < 365 + L"
    and "0 \<le> MonthStart L (m - 1)"
  using month_cases [OF assms(1,2)] assms(3,4,5)
  by (elim disjE; simp add: MonthStart_def MonthFromDay_def)+

lemma Day_of_midnight_plus:
  assumes "0 \<le> off" and "off < msPerDay"
  shows "Day (D * msPerDay + off) = D"
proof -
  have "(D * msPerDay + off) div msPerDay = D"
    by (rule int_div_pos_eq [of _ _ _ off]) (use assms in \<open>simp_all add: msPerDay_def\<close>)
  then show ?thesis by (simp add: Day_def)
qed

text \<open>
  A local time within the day \<open>d\<close> of the month \<open>m\<close> of the year \<open>y\<close> has that year,
  that month and that day.
\<close>

lemma calendar_day_of_local_time:
  assumes m: "1 \<le> m" "m \<le> 12"
    and d: "1 \<le> d" "d \<le> MonthStart (InLeapYear y) m - MonthStart (InLeapYear y) (m - 1)"
    and off: "0 \<le> off" "off < msPerDay"
  shows "YearFromTime ((DayFromYear y + MonthStart (InLeapYear y) (m - 1) + d - 1) * msPerDay + off) = y
       \<and> MonthFromTime ((DayFromYear y + MonthStart (InLeapYear y) (m - 1) + d - 1) * msPerDay + off) = m - 1
       \<and> DateFromTime ((DayFromYear y + MonthStart (InLeapYear y) (m - 1) + d - 1) * msPerDay + off) = d"
proof -
  let ?L = "InLeapYear y"
  let ?D = "DayFromYear y + MonthStart ?L (m - 1) + d - 1"
  let ?t = "?D * msPerDay + off"
  note M = month_of_day [OF m InLeapYear_range d]
  have day: "Day ?t = ?D" by (rule Day_of_midnight_plus [OF off])
  have "DayFromYear y \<le> ?D" using M(3) d(1) by simp
  moreover have "?D < DayFromYear (y + 1)" using M(2) by (simp add: DayFromYear_step)
  ultimately have yr: "YearFromTime ?t = y"
    unfolding YearFromTime_def day by (rule YearFromDay_unique)
  have dwy: "DayWithinYear ?t = MonthStart ?L (m - 1) + d - 1"
    by (simp add: DayWithinYear_def day yr)
  have mo: "MonthFromTime ?t = m - 1"
    by (simp add: MonthFromTime_def yr dwy M(1))
  have "DateFromTime ?t = d"
    by (simp add: DateFromTime_def yr dwy mo)
  with yr mo show ?thesis by simp
qed

lemma date_only_calendar:
  assumes "date_only ds = Some t" and "0 \<le> off" and "off < msPerDay"
  shows "YearFromTime (t + off) = int (digits_value 10 (take 4 ds))
       \<and> MonthFromTime (t + off) = int (digits_value 10 (take 2 (drop 5 ds))) - 1
       \<and> DateFromTime (t + off) = int (digits_value 10 (drop 8 ds))"
proof -
  let ?y = "int (digits_value 10 (take 4 ds))"
  let ?m = "int (digits_value 10 (take 2 (drop 5 ds)))"
  let ?d = "int (digits_value 10 (drop 8 ds))"
  from assms(1) have m: "1 \<le> ?m" "?m \<le> 12"
    and d: "1 \<le> ?d" "?d \<le> MonthStart (InLeapYear ?y) ?m - MonthStart (InLeapYear ?y) (?m - 1)"
    and t: "t = (DayFromYear ?y + MonthStart (InLeapYear ?y) (?m - 1) + ?d - 1) * msPerDay"
    by (auto simp: date_only_def Let_def split: if_splits)
  show ?thesis
    unfolding t by (rule calendar_day_of_local_time [OF m d assms(2,3)])
qed

text \<open>A string of decimal digits is the zero-padded decimal of its value.\<close>

lemma char_of_48: "char_of (48 :: nat) = CHR ''0''"
  by code_simp

lemma digit_char: "is_digit 10 c \<Longrightarrow> char_of (48 + digit_val c) = c \<and> digit_val c < 10"
proof -
  assume a: "is_digit 10 c"
  define n where "n = (of_char c :: nat)"
  from a have r: "48 \<le> n" "n \<le> 57" and v: "digit_val c = n - 48"
    by (auto simp: is_digit_def digit_val_def digit_of_def Let_def n_def split: option.splits if_splits)
  have "char_of (48 + (n - 48)) = char_of n" using r by simp
  also have "\<dots> = c" by (simp add: n_def)
  finally show ?thesis using v r by simp
qed

lemma digits_value_snoc: "digits_value R (ys @ [c]) = digits_value R ys * R + digit_val c"
  by (simp add: digits_value_def)

lemma decimal_snoc:
  assumes "d < 10"
  shows "decimal (v * 10 + d) = (if v = 0 then [] else decimal v) @ [char_of (48 + d)]"
proof (cases "v = 0")
  case True
  then show ?thesis using assms by (simp add: decimal.simps)
next
  case False
  then have "\<not> v * 10 + d < 10" by simp
  moreover have "(v * 10 + d) div 10 = v" "(v * 10 + d) mod 10 = d" using assms by simp_all
  ultimately show ?thesis using False by (subst decimal.simps) simp
qed

lemma decimal_digit: "d < 10 \<Longrightarrow> decimal d = [char_of (48 + d)]"
  by (simp add: decimal.simps)

lemma decimal_zero: "decimal 0 = ''0''"
  by (simp add: decimal.simps char_of_48)

lemma padded_digits:
  assumes "list_all (is_digit 10) xs" and "xs \<noteq> []"
  shows "ToZeroPaddedDecimalString (digits_value 10 xs) (length xs) = xs"
  using assms
proof (induction xs rule: rev_induct)
  case Nil
  then show ?case by simp
next
  case (snoc c ys)
  from snoc.prems have c: "char_of (48 + digit_val c) = c" "digit_val c < 10"
    using digit_char [of c] by simp_all
  show ?case
  proof (cases "ys = []")
    case True
    then show ?thesis
      using c by (simp add: ToZeroPaddedDecimalString_def digits_value_def Let_def decimal.simps)
  next
    case False
    with snoc have IH: "ToZeroPaddedDecimalString (digits_value 10 ys) (length ys) = ys"
      by simp
    define v where "v = digits_value 10 ys"
    define k where "k = length ys - length (decimal v)"
    have pad: "replicate k (CHR ''0'') @ decimal v = ys"
      using IH by (simp add: ToZeroPaddedDecimalString_def Let_def v_def k_def)
    then have "k + length (decimal v) = length ys"
      by (metis length_append length_replicate)
    then have len: "length (decimal v) \<le> length ys" and k: "length ys - length (decimal v) = k"
      by simp_all
    have val: "digits_value 10 (ys @ [c]) = v * 10 + digit_val c"
      by (simp add: digits_value_snoc v_def)
    show ?thesis
    proof (cases "v = 0")
      case True
      have ys: "replicate k (CHR ''0'') @ ''0'' = ys"
        using pad True by (simp add: decimal_zero)
      then have "Suc k = length ys"
        by (metis length_append_singleton length_replicate)
      then have "length (ys @ [c]) - length [c] = Suc k" by simp
      then have "ToZeroPaddedDecimalString (digits_value 10 (ys @ [c])) (length (ys @ [c]))
          = replicate (Suc k) (CHR ''0'') @ [c]"
        using True c by (simp add: ToZeroPaddedDecimalString_def val decimal_digit Let_def)
      also have "\<dots> = (replicate k (CHR ''0'') @ ''0'') @ [c]"
        by (simp add: replicate_append_same)
      finally show ?thesis by (simp only: ys)
    next
      case nz: False
      have "length (ys @ [c]) - length (decimal v @ [c]) = k"
        using k by simp
      then have "ToZeroPaddedDecimalString (digits_value 10 (ys @ [c])) (length (ys @ [c]))
          = replicate k (CHR ''0'') @ decimal v @ [c]"
        using nz c by (simp add: ToZeroPaddedDecimalString_def val decimal_snoc Let_def)
      then show ?thesis using pad by (metis append.assoc)
    qed
  qed
qed

lemma date_only_digits:
  assumes "date_only ds = Some t"
  shows "ToZeroPaddedDecimalString (digits_value 10 (drop 8 ds)) 2 = drop 8 ds"
    and "ToZeroPaddedDecimalString (digits_value 10 (take 4 ds)) 4 = take 4 ds"
proof -
  from assms have l: "length ds = 10"
    and a: "list_all (is_digit 10) (take 4 ds)" and b: "list_all (is_digit 10) (drop 8 ds)"
    by (auto simp: date_only_def split: if_splits)
  have "length (drop 8 ds) = 2" "drop 8 ds \<noteq> []" using l by auto
  then show "ToZeroPaddedDecimalString (digits_value 10 (drop 8 ds)) 2 = drop 8 ds"
    using padded_digits [OF b] by simp
  have "length (take 4 ds) = 4" "take 4 ds \<noteq> []" using l by auto
  then show "ToZeroPaddedDecimalString (digits_value 10 (take 4 ds)) 4 = take 4 ds"
    using padded_digits [OF a] by simp
qed

lemma toDateString_date_only:
  assumes "date_only ds = Some t" and "0 \<le> localTZA rt t" and "localTZA rt t < msPerDay"
  shows "toDateString rt (Some t)
     = weekday_name (WeekDay (t + localTZA rt t)) @ '' ''
       @ month_name (int (digits_value 10 (take 2 (drop 5 ds))) - 1) @ '' ''
       @ drop 8 ds @ '' '' @ take 4 ds"
  using date_only_calendar [OF assms] date_only_digits [OF assms(1)]
  by (simp add: toDateString_def DateString_def)

subsection \<open>The date of an exercise in the log\<close>

lemma format_entry_currentTime:
  "format_entry (rt\<lparr>currentTime := c\<rparr>) = format_entry rt"
  by (auto simp: fun_eq_iff format_entry_def toDateString_def Number_toString_def
        split: jsnum.splits option.splits)

lemma get_logs_unfiltered:
  assumes "objectIdIsValid rt userId" and "connected s"
    and "lookup s (castObjectId rt userId) = Some u"
  shows "fst (get_logs rt s userId None None None)
     = respond 200 (LogsJson (user_id u) (username u) (length (log' u))
         (map (format_entry rt) (log' u)))"
  using assms
  by (simp add: get_logs_def findById_def Let_def filter_from_def filter_to_def apply_limit_def
        falsy_def)

text \<open>
  Claim C7.  After a request to add an exercise has succeeded with a date that is not
  blank, the log returned for that user ends with the new entry, and its date is the
  date string of the add response: the calendar day, in the local time of the host, of
  the instant the supplied string parses to, whatever the current time of either
  request.  For a date-only string \<open>YYYY-MM-DD\<close>, on a host whose offset from UTC at
  that instant is at least zero and less than a day, this is the supplied day: the
  string carries the supplied month and ends with the supplied day and year.
\<close>

theorem logged_date_is_local_day:
  assumes ok: "status (fst (add_exercise rt s userId description_field duration_field (Some ds))) = 200"
    and nb: "trim ds \<noteq> []"
  shows "\<exists>u t. lookup s (castObjectId rt userId) = Some u \<and> Date_parse rt ds = Some t
     \<and> fst (add_exercise rt s userId description_field duration_field (Some ds))
         = respond 200
             (ExerciseJson (user_id u) (username u) (string_of description_field)
                (parseInt (string_of duration_field)) (toDateString rt (Some t)))
     \<and> fst (get_logs (rt\<lparr>currentTime := later\<rparr>)
              (snd (add_exercise rt s userId description_field duration_field (Some ds)))
              userId None None None)
         = respond 200
             (LogsJson (user_id u) (username u) (Suc (length (log' u)))
                (map (format_entry rt) (log' u)
                 @ [LogEntry (string_of description_field)
                      (parseInt (Number_toString rt (parseInt (string_of duration_field))))
                      (toDateString rt (Some t))]))
     \<and> (date_only ds = Some t \<and> 0 \<le> localTZA rt t \<and> localTZA rt t < msPerDay \<longrightarrow>
          toDateString rt (Some t)
            = weekday_name (WeekDay (t + localTZA rt t)) @ '' ''
              @ month_name (int (digits_value 10 (take 2 (drop 5 ds))) - 1) @ '' ''
              @ drop 8 ds @ '' '' @ take 4 ds)"
proof -
  let ?A = "add_exercise rt s userId description_field duration_field (Some ds)"
  from add_exercise_duration [OF ok] obtain u t where
    u: "lookup s (castObjectId rt userId) = Some u"
    and t: "exerciseDate rt (Some ds) = Some t"
    and resp: "fst ?A = respond 200
                   (ExerciseJson (user_id u) (username u) (string_of description_field)
                      (parseInt (string_of duration_field)) (toDateString rt (Some t)))"
    and stored: "lookup (snd ?A) (castObjectId rt userId)
               = Some (u\<lparr>log' := log' u @ [\<lparr>description = string_of description_field,
                                       duration = parseInt (string_of duration_field),
                                       date = Some t\<rparr>]\<rparr>)"
    by blast
  from nb have "ds \<noteq> []" by (auto simp: trim_def)
  with nb t have p: "Date_parse rt ds = Some t"
    by (simp add: exerciseDate_def falsy_def string_of_def)
  from ok have v: "objectIdIsValid rt userId" and c: "connected s"
    by (auto simp: add_exercise_def respond_def findById_def Let_def split: if_splits)
  have c': "connected (snd ?A)"
    using ok c
    by (auto simp: add_exercise_def respond_def findById_def save_def Let_def
             split: if_splits option.splits)
  let ?rt = "rt\<lparr>currentTime := later\<rparr>"
  have "fst (get_logs ?rt (snd ?A) userId None None None)
      = respond 200
             (LogsJson (user_id u) (username u) (Suc (length (log' u)))
                (map (format_entry rt) (log' u)
                 @ [LogEntry (string_of description_field)
                      (parseInt (Number_toString rt (parseInt (string_of duration_field))))
                      (toDateString rt (Some t))]))"
    using get_logs_unfiltered [of ?rt userId "snd ?A", OF _ c'] v stored
    by (simp add: format_entry_currentTime) (simp add: format_entry_def)
  with u p resp toDateString_date_only [of ds t rt] show ?thesis by blast
qed

theorem logged_date_is_local_day_witness:
  "status (fst (add_exercise sample_runtime sample_store ''64b000000000000000000003''
                  (Some ''jog'') (Some ''30'') (Some ''2023-01-15''))) = 200
   \<and> trim ''2023-01-15'' \<noteq> []
   \<and> date_only ''2023-01-15'' = Some 1673740800000
   \<and> fst (get_logs (sample_runtime\<lparr>currentTime := 1800000000000\<rparr>)
            (snd (add_exercise sample_runtime sample_store ''64b000000000000000000003''
                    (Some ''jog'') (Some ''30'') (Some ''2023-01-15'')))
            ''64b000000000000000000003'' None None None)
       = respond 200
           (LogsJson ''64b000000000000000000003'' ''bob'' 1
              [LogEntry ''jog'' (Fin 30) ''Sun Jan 15 2023''])"
proof -
  let ?A = "add_exercise sample_runtime sample_store ''64b000000000000000000003''
              (Some ''jog'') (Some ''30'') (Some ''2023-01-15'')"
  have ok: "status (fst ?A) = 200"
    by code_simp
  have nb: "trim ''2023-01-15'' \<noteq> []"
    by code_simp
  have d: "date_only ''2023-01-15'' = Some 1673740800000"
    by code_simp
  have l: "lookup sample_store (castObjectId sample_runtime ''64b000000000000000000003'') = Some bob"
    by code_simp
  have p: "Date_parse sample_runtime ''2023-01-15'' = Some 1673740800000"
    by code_simp
  from logged_date_is_local_day [OF ok nb, of 1800000000000] l p
  have "fst (get_logs (sample_runtime\<lparr>currentTime := 1800000000000\<rparr>) (snd ?A)
              ''64b000000000000000000003'' None None None)
         = respond 200
             (LogsJson (user_id bob) (username bob) (Suc (length (log' bob)))
                (map (format_entry sample_runtime) (log' bob)
                 @ [LogEntry (string_of (Some ''jog''))
                      (parseInt (Number_toString sample_runtime (parseInt (string_of (Some ''30'')))))
                      (toDateString sample_runtime (Some 1673740800000))]))"
    by auto
  also have "\<dots> = respond 200
           (LogsJson ''64b000000000000000000003'' ''bob'' 1
              [LogEntry ''jog'' (Fin 30) ''Sun Jan 15 2023''])"
    by code_simp
  finally show ?thesis
    using ok nb d by simp
qed

text \<open>
  On a host five hours behind UTC the supplied day \<open>2023-01-15\<close> is stored as its
  midnight in UTC and rendered in local time as the day before, so the rendered day is
  not always the supplied day.
\<close>

theorem logged_date_day_before_counterexample:
  "status (fst (add_exercise west_runtime sample_store ''64b000000000000000000003''
                  (Some ''jog'') (Some ''30'') (Some ''2023-01-15''))) = 200
   \<and> fst (get_logs west_runtime
            (snd (add_exercise west_runtime sample_store ''64b000000000000000000003''
                    (Some ''jog'') (Some ''30'') (Some ''2023-01-15'')))
            ''64b000000000000000000003'' None None None)
       = respond 200
           (LogsJson ''64b000000000000000000003'' ''bob'' 1
              [LogEntry ''jog'' (Fin 30) ''Sat Jan 14 2023''])"
  by code_simp

end
